theory Spec2Isabelle
  imports Complex_Main
begin

section \<open>The ledger store (db/schema.js)\<close>

text \<open>
  The persisted state is the set of PostgreSQL tables declared in \<^verbatim>\<open>db/schema.js\<close>.
  A table is the list of its rows, in insertion order. Primary keys are UUIDs drawn by
  the store (\<^verbatim>\<open>defaultRandom()\<close>); here they are natural numbers handed out by a counter
  that never goes back, so a key is never used twice. Columns that no handler of the
  order workflow reads (url, is_active, updated_at, bank details, ...) are left out.
\<close>

type_synonym uuid = nat

text \<open>
  The texts that a handler trims, splits or changes the case of, and the values it
  compares them with, are JavaScript strings: sequences of UTF-16 code units, each a
  number below 65536. \<open>js\<close> is the string of an ASCII literal.
\<close>

type_synonym js_string = "nat list"

definition js :: "string \<Rightarrow> js_string" where
  "js s = map of_char s"

datatype account_status = Available | Pending | Sold

record user_row =
  user_id :: uuid
  telegram_user_id :: string
  username :: string
  balance :: "int option"

record account_row =
  acc_id :: uuid
  owner_id :: uuid
  platform :: js_string
  acc_name :: string
  price :: int
  acc_status :: account_status
  subscriber_count :: int
  creation_year :: "int option"
  is_monetized :: "bool option"
  acc_created_at :: int

record order_row =
  ord_id :: uuid
  buyer_id :: uuid
  account_id :: uuid
  amount :: int
  ord_status :: string
  receipt_no :: "js_string option"

record transfer_row =
  tr_id :: uuid
  tr_order_id :: uuid
  tr_seller_id :: uuid

record withdrawal_row =
  wd_id :: uuid
  wd_user_id :: uuid
  wd_amount :: int
  wd_status :: string
  wd_reason :: string

text \<open>
  The two \<^verbatim>\<open>setTimeout\<close> callbacks of the server are kept as scheduled tasks: the delay
  in milliseconds and the identifier the closure captured.
\<close>

datatype task = ReleaseReservation uuid | CleanupCompletedOrder uuid

record timer =
  delay_ms :: nat
  timer_task :: task

record store =
  users :: "user_row list"
  accounts :: "account_row list"
  orders :: "order_row list"
  transfers :: "transfer_row list"
  withdrawals :: "withdrawal_row list"
  timers :: "timer list"
  next_id :: uuid

text \<open>The HTTP outcomes of the handlers that are not a 2xx answer.\<close>

datatype error =
    BuyerIdRequired           \<comment> \<open>400, reserve without buyer_id\<close>
  | NotAvailable              \<comment> \<open>409, "Account is not available for reservation."\<close>
  | MissingOrderFields        \<comment> \<open>400, orders/check without buyer_id or account_id\<close>
  | DuplicateActiveOrder      \<comment> \<open>400, "You already have an active order for this account"\<close>
  | MissingPaymentFields      \<comment> \<open>400, "Receipt number and amount are required"\<close>
  | ServerConfiguration       \<comment> \<open>500, the verifier's API key is not set\<close>
  | VerificationFailed        \<comment> \<open>400, the verifier answered success = false\<close>
  | VerifierUnavailable       \<comment> \<open>500, "Failed to verify payment": the request to the verifier failed\<close>
  | PaymentMismatch           \<comment> \<open>400, "Payment details mismatch."\<close>
  | StatusRequired            \<comment> \<open>400, "Status is required"\<close>
  | OrderNotFound             \<comment> \<open>404\<close>
  | SellerNotFound            \<comment> \<open>404\<close>
  | AccountNotFound           \<comment> \<open>404\<close>
  | NotDeletable              \<comment> \<open>400, the account is not in 'available' status\<close>
  | HasPendingOrders          \<comment> \<open>400, the account has pending or in_progress orders\<close>
  | Forbidden                 \<comment> \<open>"You can only delete your own accounts."\<close>
  | MissingWithdrawalFields   \<comment> \<open>400, "user_id and amount are required"\<close>
  | UserNotFound              \<comment> \<open>404 or "User not found"\<close>
  | InsufficientBalance       \<comment> \<open>"Insufficient balance"\<close>
  | MissingBankDetails        \<comment> \<open>400, "Bank account details are required"\<close>
  | StoreError                \<comment> \<open>500, the store rejected a statement\<close>

subsection \<open>Store primitives\<close>

text \<open>\<^verbatim>\<open>rows[0]\<close> of a query result: \<^verbatim>\<open>undefined\<close> when the result is empty.\<close>

definition first_row :: "'a list \<Rightarrow> 'a option" where
  "first_row rows = (case rows of [] \<Rightarrow> None | r # _ \<Rightarrow> Some r)"

text \<open>The range of PostgreSQL's \<^verbatim>\<open>integer\<close> columns; a value outside is refused.\<close>

definition int4_ok :: "int \<Rightarrow> bool" where
  "int4_ok v = (- 2147483648 \<le> v \<and> v \<le> 2147483647)"

text \<open>JavaScript's conversion of a nullable integer column to a number: null is 0.\<close>

definition to_number :: "int option \<Rightarrow> int" where
  "to_number v = (case v of None \<Rightarrow> 0 | Some n \<Rightarrow> n)"

definition set_status :: "account_status \<Rightarrow> uuid \<Rightarrow> account_row list \<Rightarrow> account_row list" where
  \<comment> \<open>\<^verbatim>\<open>update(accounts).set({status}).where(eq(accounts.id, id))\<close>\<close>
  "set_status s aid rows = map (\<lambda>r. if acc_id r = aid then r\<lparr>acc_status := s\<rparr> else r) rows"

definition account_by_id :: "store \<Rightarrow> uuid \<Rightarrow> account_row list" where
  \<comment> \<open>\<^verbatim>\<open>select().from(accounts).where(eq(accounts.id, id))\<close>\<close>
  "account_by_id st aid = filter (\<lambda>a. acc_id a = aid) (accounts st)"

definition status_of :: "store \<Rightarrow> uuid \<Rightarrow> account_status option" where
  "status_of st aid = map_option acc_status (first_row (account_by_id st aid))"

section \<open>Reservation manager (POST /accounts/:id/reserve)\<close>

text \<open>
  The handler runs its check and its update in one transaction on the row it locked with
  \<^verbatim>\<open>SELECT ... FOR UPDATE\<close>, so a call is one step on the store. \<open>buyer\<close> is \<open>None\<close> when the
  request body has no (or a falsy) \<^verbatim>\<open>buyer_id\<close>. On success the timer that releases the
  reservation is scheduled with the delay \<^verbatim>\<open>10 * 60 * 1000\<close>.
\<close>

definition reserve :: "store \<Rightarrow> uuid \<Rightarrow> uuid option \<Rightarrow> (error + account_row option) \<times> store" where
  "reserve st aid buyer =
    (case buyer of
       None \<Rightarrow> (Inl BuyerIdRequired, st)
     | Some b \<Rightarrow>
        (case account_by_id st aid of
           [] \<Rightarrow> (Inl NotAvailable, st)
         | a # _ \<Rightarrow>
            if acc_status a \<noteq> Available then (Inl NotAvailable, st)
            else
              let updatedAccount = map (\<lambda>r. r\<lparr>acc_status := Pending\<rparr>) (account_by_id st aid)
              in (Inr (first_row updatedAccount),
                  st\<lparr>accounts := set_status Pending aid (accounts st),
                     timers := timers st @
                       [\<lparr>delay_ms = 10 * 60 * 1000, timer_task = ReleaseReservation aid\<rparr>]\<rparr>)))"

text \<open>
  The body of the release timer. It reads the account again, and frees it only when it
  is still pending and no order with status 'pending' refers to it.
\<close>

definition release_reservation :: "store \<Rightarrow> uuid \<Rightarrow> store" where
  "release_reservation st aid =
    (case account_by_id st aid of
       [] \<Rightarrow> st
     | currentAccount # _ \<Rightarrow>
        if acc_status currentAccount = Pending then
          (let pendingOrder = filter (\<lambda>ord. account_id ord = aid \<and> ord_status ord = ''pending'') (orders st)
           in if pendingOrder = [] then st\<lparr>accounts := set_status Available aid (accounts st)\<rparr>
              else st)
        else st)"

text \<open>
  Reservation attempts of several buyers on one account. The row lock makes the
  transactions run one after the other, in some order; \<open>buyers\<close> is that order.
\<close>

fun reserve_all :: "store \<Rightarrow> uuid \<Rightarrow> uuid list \<Rightarrow> (error + account_row option) list \<times> store" where
  "reserve_all st aid [] = ([], st)"
| "reserve_all st aid (b # bs) =
     (let (r, st') = reserve st aid (Some b);
          (rs, st'') = reserve_all st' aid bs
      in (r # rs, st''))"

section \<open>Orders (POST /orders, GET /orders/check)\<close>

definition is_active :: "order_row \<Rightarrow> bool" where
  \<comment> \<open>\<^verbatim>\<open>or(eq(orders.status, 'pending'), eq(orders.status, 'in_progress'))\<close>\<close>
  "is_active ord = (ord_status ord = ''pending'' \<or> ord_status ord = ''in_progress'')"

text \<open>
  \<^verbatim>\<open>GET /orders/check\<close>: the check the bot runs right after it has reserved the account.
  It answers 400 when the buyer has an active order for the account, and
  \<^verbatim>\<open>{exists: false}\<close> otherwise.
\<close>

definition check_order :: "store \<Rightarrow> uuid option \<Rightarrow> uuid option \<Rightarrow> error + bool" where
  "check_order st buyer account =
    (case (buyer, account) of
       (Some b, Some a) \<Rightarrow>
         (let existingOrder =
                take 1 (filter (\<lambda>ord. buyer_id ord = b \<and> account_id ord = a \<and> is_active ord) (orders st))
          in if length existingOrder > 0 then Inl DuplicateActiveOrder else Inr False)
     | _ \<Rightarrow> Inl MissingOrderFields)"

text \<open>
  \<^verbatim>\<open>insert(orders).values({..., status: 'pending'}).returning()\<close>. The store refuses the row
  (and the handler answers 500) when the amount is missing or out of range, or when the
  buyer or the account it refers to does not exist.
\<close>

definition insert_order ::
  "store \<Rightarrow> uuid \<Rightarrow> uuid \<Rightarrow> int option \<Rightarrow> js_string option \<Rightarrow> (error + order_row option) \<times> store" where
  "insert_order st buyer account amt receipt =
    (case amt of
       None \<Rightarrow> (Inl StoreError, st)
     | Some v \<Rightarrow>
        if filter (\<lambda>u. user_id u = buyer) (users st) = [] \<or> account_by_id st account = []
           \<or> \<not> int4_ok v
        then (Inl StoreError, st)
        else
          let newOrder = [\<lparr>ord_id = next_id st, buyer_id = buyer, account_id = account,
                           amount = v, ord_status = ''pending'', receipt_no = receipt\<rparr>]
          in (Inr (first_row newOrder),
              st\<lparr>orders := orders st @ newOrder, next_id := Suc (next_id st)\<rparr>))"

text \<open>
  \<^verbatim>\<open>POST /orders\<close> of the server with the reservation endpoint: "The account is already
  reserved (status: 'pending') by the bot action. We just need to create the order
  record."
\<close>

definition createOrder ::
  "store \<Rightarrow> uuid \<Rightarrow> uuid \<Rightarrow> int option \<Rightarrow> js_string option \<Rightarrow> (error + order_row option) \<times> store" where
  "createOrder st buyer account amt receipt = insert_order st buyer account amt receipt"

text \<open>
  \<^verbatim>\<open>POST /orders\<close> of \<^verbatim>\<open>index.js\<close>, the server without reservations: it looks for an active
  order of the same buyer for the same account first. Its orders carry no receipt.
\<close>

definition createOrder_index ::
  "store \<Rightarrow> uuid \<Rightarrow> uuid \<Rightarrow> int option \<Rightarrow> (error + order_row option) \<times> store" where
  "createOrder_index st buyer account amt =
    (let existingOrder =
           take 1 (filter (\<lambda>ord. buyer_id ord = buyer \<and> account_id ord = account \<and> is_active ord)
                     (orders st))
     in if length existingOrder > 0 then (Inl DuplicateActiveOrder, st)
        else insert_order st buyer account amt None)"

section \<open>Payment verification\<close>

subsection \<open>Telebirr receipts (POST /orders/verify-payment)\<close>

text \<open>
  A JavaScript number as far as the comparison of amounts needs it: \<open>NaN\<close>, or a value.
  The two \<^verbatim>\<open>parseFloat\<close> calls of the handler are taken as done: the verifier's
  \<^verbatim>\<open>settledAmount\<close> arrives as the number its digits parse to, and the request's amount,
  a JSON number, parses to itself.
\<close>

datatype js_number = NaN | Num rat

fun js_lt :: "js_number \<Rightarrow> js_number \<Rightarrow> bool" where
  "js_lt (Num a) (Num b) = (a < b)"
| "js_lt _ _ = False"

record telebirr_data =
  creditedPartyName :: js_string
  settledAmount :: js_number

record telebirr_response =
  success :: bool
  data :: telebirr_data

text \<open>
  \<open>api\<close> is the external receipt verifier (\<open>None\<close>: the request failed, and the handler
  answers 500); \<open>apiKey\<close> tells whether its key is configured. \<open>reference\<close> is empty and
  \<open>amt\<close> is \<open>None\<close> when the request body lacks them; an amount of 0 is falsy as well.
\<close>

definition verify_payment ::
  "(js_string \<Rightarrow> telebirr_response option) \<Rightarrow> bool \<Rightarrow> js_string \<Rightarrow> rat option \<Rightarrow> error + telebirr_data" where
  "verify_payment api apiKey reference amt =
    (if reference = [] \<or> amt = None \<or> amt = Some 0 then Inl MissingPaymentFields
     else if \<not> apiKey then Inl ServerConfiguration
     else
       (case api reference of
          None \<Rightarrow> Inl VerifierUnavailable
        | Some verificationResponse \<Rightarrow>
           if \<not> success verificationResponse then Inl VerificationFailed
           else
             let settled = settledAmount (data verificationResponse);
                 expectedAmount = (case amt of None \<Rightarrow> NaN | Some v \<Rightarrow> Num v)
             in if creditedPartyName (data verificationResponse) \<noteq> js ''Kaleb Mate Megane''
                   \<or> js_lt settled expectedAmount
                then Inl PaymentMismatch
                else Inr (data verificationResponse)))"

subsection \<open>CBE receipts (bot.on('photo'))\<close>

text \<open>
  \<^verbatim>\<open>String.prototype.trim\<close> removes from both ends the code units that ECMAScript
  counts as white space or as a line terminator: U+0009 to U+000D, U+0020, U+00A0,
  U+1680, U+2000 to U+200A, U+2028, U+2029, U+202F, U+205F, U+3000 and U+FEFF.
\<close>

definition is_white_space :: "nat \<Rightarrow> bool" where
  "is_white_space u =
    ((9 \<le> u \<and> u \<le> 13) \<or> u = 32 \<or> u = 160 \<or> u = 5760 \<or> (8192 \<le> u \<and> u \<le> 8202)
     \<or> u = 8232 \<or> u = 8233 \<or> u = 8239 \<or> u = 8287 \<or> u = 12288 \<or> u = 65279)"

definition trim :: "js_string \<Rightarrow> js_string" where
  "trim s = rev (dropWhile is_white_space (rev (dropWhile is_white_space s)))"

text \<open>
  \<^verbatim>\<open>toUpperCase\<close> and \<^verbatim>\<open>toLowerCase\<close> map a string code point by code point, where
  a code point is one code unit, or a high surrogate followed by a low surrogate. An
  ASCII code point is mapped as the letters a-z and A-Z are. The mapping of the other
  code points is the case table of the Unicode Character Database, a part of the
  JavaScript runtime and not of this repository: it is a parameter, which gets the
  code points before and after the one to map (the lower case of a capital sigma
  depends on them) and returns code units.
\<close>

fun code_points :: "js_string \<Rightarrow> nat list" where
  "code_points (h # l # us) =
     (if 55296 \<le> h \<and> h \<le> 56319 \<and> 56320 \<le> l \<and> l \<le> 57343
      then (65536 + (h - 55296) * 1024 + (l - 56320)) # code_points us
      else h # code_points (l # us))"
| "code_points [u] = [u]"
| "code_points [] = []"

type_synonym case_table = "nat list \<Rightarrow> nat list \<Rightarrow> nat \<Rightarrow> js_string"

fun map_case :: "(nat \<Rightarrow> nat) \<Rightarrow> case_table \<Rightarrow> nat list \<Rightarrow> nat list \<Rightarrow> js_string" where
  "map_case ascii unicode before [] = []"
| "map_case ascii unicode before (cp # after) =
     (if cp < 128 then [ascii cp] else unicode before after cp)
     @ map_case ascii unicode (before @ [cp]) after"

definition to_upper_ascii :: "nat \<Rightarrow> nat" where
  "to_upper_ascii cp = (if 97 \<le> cp \<and> cp \<le> 122 then cp - 32 else cp)"

definition to_lower_ascii :: "nat \<Rightarrow> nat" where
  "to_lower_ascii cp = (if 65 \<le> cp \<and> cp \<le> 90 then cp + 32 else cp)"

definition toUpperCase :: "case_table \<Rightarrow> js_string \<Rightarrow> js_string" where
  "toUpperCase upper s = map_case to_upper_ascii upper [] (code_points s)"

definition toLowerCase :: "case_table \<Rightarrow> js_string \<Rightarrow> js_string" where
  "toLowerCase lower s = map_case to_lower_ascii lower [] (code_points s)"

definition validReceivers :: "js_string list" where
  "validReceivers = [js ''Kaleb Mate'', js ''KALEB MATE MEGANE'']"

definition isValidReceiver :: "case_table \<Rightarrow> js_string \<Rightarrow> bool" where
  "isValidReceiver upper receiver =
    (let normalizedReceiver = toUpperCase upper (trim receiver)
     in list_ex (\<lambda>name. toUpperCase upper name = normalizedReceiver) validReceivers)"

text \<open>
  What the bot reads of the CBE verifier's answer. \<open>cbe_amount\<close> is the result of
  \<^verbatim>\<open>parseInt(verificationData.data.amount)\<close>, \<open>None\<close> for \<open>NaN\<close>.
\<close>

record cbe_data =
  receiver :: js_string
  cbe_amount :: "int option"
  cbe_transaction :: "js_string option"

record cbe_response =
  cbe_success :: bool
  cbe_message :: string
  cbe_data :: cbe_data

text \<open>
  The two validations of the photo handler, in its order: the receiver's name, then
  \<^verbatim>\<open>amount !== accountPrice\<close>, where the price of the session may be undefined (\<open>None\<close>).
\<close>

definition cbe_validate :: "case_table \<Rightarrow> cbe_data \<Rightarrow> int option \<Rightarrow> error + int" where
  "cbe_validate upper d accountPrice =
    (if \<not> isValidReceiver upper (receiver d) then Inl PaymentMismatch
     else
       (case (cbe_amount d, accountPrice) of
          (Some a, Some p) \<Rightarrow> if a \<noteq> p then Inl PaymentMismatch else Inr a
        | _ \<Rightarrow> Inl PaymentMismatch))"

subsection \<open>The bot's receipt handlers\<close>

text \<open>The part of the bot's per-chat session that the purchase flow uses.\<close>

record session =
  pendingAccountId :: "uuid option"
  pendingPaymentMethod :: "string option"
  pendingAccountPrice :: "int option"

datatype reply =
    Ignored                          \<comment> \<open>the handler returned at its first line\<close>
  | VerificationRejected error       \<comment> \<open>the verification was refused; the session is kept\<close>
  | ErrorOccurred error              \<comment> \<open>the handler's catch block\<close>
  | OrderCreated "order_row option"

definition user_by_telegram :: "store \<Rightarrow> string \<Rightarrow> user_row option" where
  \<comment> \<open>\<^verbatim>\<open>GET /users/by-telegram/:telegram_user_id\<close>, 404 when there is none\<close>
  "user_by_telegram st tg = first_row (filter (\<lambda>u. telegram_user_id u = tg) (users st))"

text \<open>
  \<^verbatim>\<open>bot.on('text')\<close>: a Telebirr receipt number. The order is posted only after the
  verification endpoint has answered 2xx.
\<close>

definition on_text ::
  "(js_string \<Rightarrow> telebirr_response option) \<Rightarrow> bool \<Rightarrow> store \<Rightarrow> session \<Rightarrow> string \<Rightarrow> js_string
     \<Rightarrow> reply \<times> session \<times> store" where
  "on_text api apiKey st s tg text =
    (case pendingAccountId s of
       None \<Rightarrow> (Ignored, s, st)
     | Some accountId \<Rightarrow>
        if text = [] then (Ignored, s, st)
        else if pendingPaymentMethod s \<noteq> Some ''telebirr'' then (Ignored, s, st)
        else
          let accountPrice = pendingAccountPrice s;
              receiptNo = trim text;
              cleared = s\<lparr>pendingAccountId := None, pendingAccountPrice := None\<rparr>
          in (case verify_payment api apiKey receiptNo (map_option of_int accountPrice) of
                Inl e \<Rightarrow> (VerificationRejected e, s, st)
              | Inr _ \<Rightarrow>
                 (case user_by_telegram st tg of
                    None \<Rightarrow> (ErrorOccurred UserNotFound, cleared, st)
                  | Some userData \<Rightarrow>
                     (case createOrder st (user_id userData) accountId accountPrice (Some receiptNo) of
                        (Inl e, st') \<Rightarrow> (ErrorOccurred e, cleared, st')
                      | (Inr ord, st') \<Rightarrow> (OrderCreated ord, cleared, st')))))"

text \<open>
  \<^verbatim>\<open>bot.on('photo')\<close>: a CBE receipt screenshot. \<open>verifyRes\<close> is the answer of the CBE
  verifier for the uploaded image (\<open>None\<close>: the upload or the request failed). The image
  host is outside the ledger and is not part of the state. \<open>upper\<close> is the case table
  of the runtime.
\<close>

definition on_photo ::
  "case_table \<Rightarrow> cbe_response option \<Rightarrow> store \<Rightarrow> session \<Rightarrow> string \<Rightarrow> reply \<times> session \<times> store" where
  "on_photo upper verifyRes st s tg =
    (case pendingAccountId s of
       None \<Rightarrow> (Ignored, s, st)
     | Some accountId \<Rightarrow>
        if pendingPaymentMethod s \<noteq> Some ''cbe'' then (Ignored, s, st)
        else
          let accountPrice = pendingAccountPrice s;
              cleared = s\<lparr>pendingAccountId := None, pendingPaymentMethod := None,
                           pendingAccountPrice := None\<rparr>
          in (case verifyRes of
                None \<Rightarrow> (ErrorOccurred VerifierUnavailable, cleared, st)
              | Some verificationData \<Rightarrow>
                 if \<not> cbe_success verificationData then (VerificationRejected VerificationFailed, s, st)
                 else
                   (case user_by_telegram st tg of
                      None \<Rightarrow> (ErrorOccurred UserNotFound, cleared, st)
                    | Some userData \<Rightarrow>
                       (case cbe_validate upper (cbe_data verificationData) accountPrice of
                          Inl e \<Rightarrow> (ErrorOccurred e, cleared, st)
                        | Inr amt \<Rightarrow>
                           (case createOrder st (user_id userData) accountId (Some amt)
                                   (cbe_transaction (cbe_data verificationData)) of
                              (Inl e, st') \<Rightarrow> (ErrorOccurred e, cleared, st')
                            | (Inr ord, st') \<Rightarrow> (OrderCreated ord, cleared, st'))))))"

section \<open>Completion (PUT /orders/:id and the bot's transfer_complete)\<close>

text \<open>
  \<^verbatim>\<open>PUT /orders/:id\<close>. \<open>status\<close> is empty when the body has none. The status column is
  plain text, so any other string is stored. With 'completed' the account of the order
  is marked sold and the clean-up timer (5000 ms) is scheduled. The statements are not
  wrapped in a transaction.
\<close>

definition update_order :: "store \<Rightarrow> uuid \<Rightarrow> string \<Rightarrow> (error + order_row option) \<times> store" where
  "update_order st oid status =
    (if status = [] then (Inl StatusRequired, st)
     else
       let orderDetails = filter (\<lambda>ord. ord_id ord = oid) (orders st)
       in if orderDetails = [] then (Inl OrderNotFound, st)
          else
            let result = map (\<lambda>ord. ord\<lparr>ord_status := status\<rparr>) orderDetails;
                st1 = st\<lparr>orders := map (\<lambda>ord. if ord_id ord = oid then ord\<lparr>ord_status := status\<rparr> else ord)
                                       (orders st)\<rparr>
            in if status = ''completed'' then
                 (case result of
                    [] \<Rightarrow> (Inl StoreError, st1)
                  | ord # _ \<Rightarrow>
                     (Inr (first_row result),
                      st1\<lparr>accounts := set_status Sold (account_id ord) (accounts st1),
                          timers := timers st1 @
                            [\<lparr>delay_ms = 5000, timer_task = CleanupCompletedOrder (account_id ord)\<rparr>]\<rparr>))
               else (Inr (first_row result), st1))"

text \<open>
  The body of the clean-up timer: delete the orders of the account, then the account.
  An order that a transfer row refers to cannot be deleted; the error is caught and
  logged, and nothing is deleted.
\<close>

definition orders_of :: "store \<Rightarrow> uuid \<Rightarrow> order_row list" where
  \<comment> \<open>\<^verbatim>\<open>select().from(orders).where(eq(orders.account_id, id))\<close>\<close>
  "orders_of st aid = filter (\<lambda>ord. account_id ord = aid) (orders st)"

definition referenced_by_transfer :: "store \<Rightarrow> order_row \<Rightarrow> bool" where
  "referenced_by_transfer st ord = list_ex (\<lambda>t. tr_order_id t = ord_id ord) (transfers st)"

definition cleanup_completed_order :: "store \<Rightarrow> uuid \<Rightarrow> store" where
  "cleanup_completed_order st account =
    (if list_ex (referenced_by_transfer st) (orders_of st account)
     then st
     else st\<lparr>orders := filter (\<lambda>ord. account_id ord \<noteq> account) (orders st),
             accounts := filter (\<lambda>a. acc_id a \<noteq> account) (accounts st)\<rparr>)"

text \<open>
  \<^verbatim>\<open>GET /orders/:id\<close>: the order joined with its buyer and its account, and the seller
  looked up from the account's owner.
\<close>

definition get_order ::
  "store \<Rightarrow> uuid \<Rightarrow> error + (order_row \<times> account_row \<times> user_row \<times> user_row)" where
  "get_order st oid =
    (let result = concat (map (\<lambda>ord.
                    concat (map (\<lambda>u. map (\<lambda>a. (ord, u, a)) (account_by_id st (account_id ord)))
                              (filter (\<lambda>u. user_id u = buyer_id ord) (users st))))
                    (filter (\<lambda>ord. ord_id ord = oid) (orders st)))
     in case result of
          [] \<Rightarrow> Inl OrderNotFound
        | (ord, buyer, account) # _ \<Rightarrow>
           (case filter (\<lambda>u. user_id u = owner_id account) (users st) of
              [] \<Rightarrow> Inl SellerNotFound
            | seller # _ \<Rightarrow> Inr (ord, account, buyer, seller)))"

definition get_user :: "store \<Rightarrow> uuid \<Rightarrow> user_row option" where
  \<comment> \<open>\<^verbatim>\<open>GET /users/:id\<close> answers \<^verbatim>\<open>result[0]\<close>\<close>
  "get_user st uid = first_row (filter (\<lambda>u. user_id u = uid) (users st))"

definition put_user_balance :: "store \<Rightarrow> uuid \<Rightarrow> int \<Rightarrow> (error + user_row option) \<times> store" where
  \<comment> \<open>\<^verbatim>\<open>PUT /users/:id\<close> with \<^verbatim>\<open>{balance}\<close>\<close>
  "put_user_balance st uid b =
    (if \<not> int4_ok b then (Inl StoreError, st)
     else
       let result = map (\<lambda>u. u\<lparr>balance := Some b\<rparr>) (filter (\<lambda>u. user_id u = uid) (users st))
       in if result = [] then (Inl UserNotFound, st)
          else (Inr (first_row result),
                st\<lparr>users := map (\<lambda>u. if user_id u = uid then u\<lparr>balance := Some b\<rparr> else u) (users st)\<rparr>))"

text \<open>
  The bot's \<^verbatim>\<open>transfer_complete\<close> action is a sequence of HTTP requests. Its first part
  ends with the read of the seller's balance: it completes the order, fetches it again,
  fetches the seller and computes \<^verbatim>\<open>(sellerData.balance || 0) + account.price\<close>. Its
  second part writes that number with \<^verbatim>\<open>PUT /users/:id\<close>. Other requests can be served
  between the two.
\<close>

definition transfer_complete_read :: "store \<Rightarrow> uuid \<Rightarrow> (error + uuid \<times> int) \<times> store" where
  "transfer_complete_read st oid =
    (case update_order st oid ''completed'' of
       (Inl e, st1) \<Rightarrow> (Inl e, st1)
     | (Inr _, st1) \<Rightarrow>
        (case get_order st1 oid of
           Inl e \<Rightarrow> (Inl e, st1)
         | Inr (ord, account, buyer, seller) \<Rightarrow>
            (let sellerId = owner_id account
             in case get_user st1 sellerId of
                  None \<Rightarrow> (Inl UserNotFound, st1)
                | Some sellerData \<Rightarrow>
                   (let currentBalance = to_number (balance sellerData);
                        newBalance = currentBalance + price account
                    in (Inr (sellerId, newBalance), st1)))))"

definition transfer_complete_write :: "store \<Rightarrow> uuid \<times> int \<Rightarrow> (error + unit) \<times> store" where
  "transfer_complete_write st credit =
    (case put_user_balance st (fst credit) (snd credit) of
       (Inl e, st') \<Rightarrow> (Inl e, st')
     | (Inr _, st') \<Rightarrow> (Inr (), st'))"

definition transfer_complete :: "store \<Rightarrow> uuid \<Rightarrow> (error + unit) \<times> store" where
  "transfer_complete st oid =
    (case transfer_complete_read st oid of
       (Inl e, st1) \<Rightarrow> (Inl e, st1)
     | (Inr credit, st1) \<Rightarrow> transfer_complete_write st1 credit)"

definition balance_of :: "store \<Rightarrow> uuid \<Rightarrow> int option option" where
  \<comment> \<open>the balance column of \<^verbatim>\<open>GET /users/:id\<close>; the outer \<open>None\<close>: no such user\<close>
  "balance_of st uid = map_option balance (get_user st uid)"

text \<open>
  Two runs of the action, for the orders \<open>o1\<close> and \<open>o2\<close>, whose requests reach the server
  in the order: first part of the first run, first part of the second run, the write of
  the first run, the write of the second run.
\<close>

definition transfer_complete_interleaved :: "store \<Rightarrow> uuid \<Rightarrow> uuid \<Rightarrow> store" where
  "transfer_complete_interleaved st o1 o2 =
    (case transfer_complete_read st o1 of
       (Inl _, st1) \<Rightarrow> st1
     | (Inr credit1, st1) \<Rightarrow>
        (case transfer_complete_read st1 o2 of
           (Inl _, st2) \<Rightarrow> snd (transfer_complete_write st2 credit1)
         | (Inr credit2, st2) \<Rightarrow>
            snd (transfer_complete_write (snd (transfer_complete_write st2 credit1)) credit2)))"

section \<open>Cancellation (POST /orders/:id/cancel)\<close>

text \<open>
  One transaction: read the order, set its account to 'available', delete the order.
  When a statement fails the transaction is rolled back and the store is as before.
\<close>

definition cancelOrder :: "store \<Rightarrow> uuid \<Rightarrow> (error + order_row option) \<times> store" where
  "cancelOrder st oid =
    (case filter (\<lambda>ord. ord_id ord = oid) (orders st) of
       [] \<Rightarrow> (Inl OrderNotFound, st)
     | ord # _ \<Rightarrow>
        let deletedOrder = filter (\<lambda>r. ord_id r = oid) (orders st)
        in if list_ex (referenced_by_transfer st) deletedOrder then (Inl StoreError, st)
           else (Inr (first_row deletedOrder),
                 st\<lparr>accounts := set_status Available (account_id ord) (accounts st),
                    orders := filter (\<lambda>r. ord_id r \<noteq> oid) (orders st)\<rparr>))"

section \<open>Account deletion (DELETE /accounts/:id and the bot's delete_account)\<close>

definition active_orders_of :: "store \<Rightarrow> uuid \<Rightarrow> order_row list" where
  \<comment> \<open>the orders of an account whose status is 'pending' or 'in_progress'\<close>
  "active_orders_of st aid = filter (\<lambda>ord. account_id ord = aid \<and> is_active ord) (orders st)"

text \<open>
  \<^verbatim>\<open>DELETE /accounts/:id\<close>. Deleting the account deletes its orders with it
  (\<^verbatim>\<open>onDelete: 'cascade'\<close>), unless a transfer row refers to one of them.
\<close>

definition delete_account :: "store \<Rightarrow> uuid \<Rightarrow> (error + account_row option) \<times> store" where
  "delete_account st aid =
    (case account_by_id st aid of
       [] \<Rightarrow> (Inl AccountNotFound, st)
     | existingAccount # _ \<Rightarrow>
        if acc_status existingAccount \<noteq> Available then (Inl NotDeletable, st)
        else
          let pendingOrders = active_orders_of st aid
          in if length pendingOrders > 0 then (Inl HasPendingOrders, st)
             else if list_ex (referenced_by_transfer st) (orders_of st aid)
             then (Inl StoreError, st)
             else (Inr (first_row (account_by_id st aid)),
                   st\<lparr>accounts := filter (\<lambda>a. acc_id a \<noteq> aid) (accounts st),
                      orders := filter (\<lambda>ord. account_id ord \<noteq> aid) (orders st)\<rparr>))"


text \<open>
  The bot's \<^verbatim>\<open>confirm_delete_\<close> action, which the confirmation button sends: it takes
  the account id from the callback data and sends \<^verbatim>\<open>DELETE /accounts/:id\<close>. Neither the
  action nor the endpoint looks at the user who sent it, \<open>tg\<close>.
\<close>

definition confirm_delete :: "store \<Rightarrow> uuid \<Rightarrow> string \<Rightarrow> (error + account_row option) \<times> store" where
  "confirm_delete st aid tg = delete_account st aid"

section \<open>Withdrawals (POST /withdrawals)\<close>

text \<open>
  One transaction: read the user, compare the balance, write the new balance, insert the
  withdrawal. \<open>uid\<close> and \<open>amt\<close> are \<open>None\<close> when the body lacks them. The handler passes no
  reason, so the row gets the column's default.
\<close>

definition withdraw :: "store \<Rightarrow> uuid option \<Rightarrow> int option \<Rightarrow> (error + withdrawal_row option) \<times> store" where
  "withdraw st uid amt =
    (case (uid, amt) of
       (Some userId, Some v) \<Rightarrow>
         (case filter (\<lambda>u. user_id u = userId) (users st) of
            [] \<Rightarrow> (Inl UserNotFound, st)
          | user # _ \<Rightarrow>
             if to_number (balance user) < v then (Inl InsufficientBalance, st)
             else
               let newBalance = to_number (balance user) - v
               in if \<not> int4_ok newBalance \<or> \<not> int4_ok v then (Inl StoreError, st)
                  else
                    let withdrawal = [\<lparr>wd_id = next_id st, wd_user_id = userId, wd_amount = v,
                                       wd_status = ''pending'', wd_reason = ''order_refund''\<rparr>]
                    in (Inr (first_row withdrawal),
                        st\<lparr>users := map (\<lambda>u. if user_id u = userId then u\<lparr>balance := Some newBalance\<rparr> else u)
                                       (users st),
                           withdrawals := withdrawals st @ withdrawal,
                           next_id := Suc (next_id st)\<rparr>))
     | _ \<Rightarrow> (Inl MissingWithdrawalFields, st))"

section \<open>Marketplace listing and search (GET /accounts, GET /search/accounts)\<close>

text \<open>
  \<^verbatim>\<open>Math.ceil(totalCount / limit)\<close> for a row count and a limit. The limit is \<open>None\<close>
  when it is \<open>NaN\<close>; the division by 0 gives \<open>Infinity\<close> for a positive count and \<open>NaN\<close>
  for the count 0.
\<close>

datatype page_count = Pages int | PagesInfinity | PagesNaN

definition ceil_div :: "nat \<Rightarrow> int option \<Rightarrow> page_count" where
  "ceil_div n d =
    (case d of
       None \<Rightarrow> PagesNaN
     | Some l \<Rightarrow>
        if l \<noteq> 0 then Pages (- ((- int n) div l))
        else if n = 0 then PagesNaN else PagesInfinity)"

definition has_more :: "int option \<Rightarrow> page_count \<Rightarrow> bool" where
  \<comment> \<open>\<^verbatim>\<open>page < totalPages\<close>, false as soon as one side is \<open>NaN\<close>\<close>
  "has_more page cnt =
    (case page of
       None \<Rightarrow> False
     | Some p \<Rightarrow> (case cnt of Pages t \<Rightarrow> p < t | PagesInfinity \<Rightarrow> True | PagesNaN \<Rightarrow> False))"

record pagination =
  currentPage :: "int option"
  totalPages :: page_count
  totalCount :: int
  hasMore :: bool
  page_limit :: "int option"

record listing =
  listed :: "account_row list"
  pages :: pagination

definition order_by_created_desc_id :: "account_row list \<Rightarrow> account_row list" where
  \<comment> \<open>\<^verbatim>\<open>orderBy(desc(accounts.created_at), accounts.id)\<close>\<close>
  "order_by_created_desc_id rows = sort_key (\<lambda>a. - acc_created_at a) (sort_key acc_id rows)"

text \<open>
  \<^verbatim>\<open>.limit(limit).offset(offset)\<close> on the ordered rows; \<open>None\<close> is \<open>NaN\<close>. The query
  builder writes a LIMIT clause only for a limit that is a number and not negative, and
  an OFFSET clause only for an offset that is a number other than 0. The store refuses
  (and the handler answers 500) a negative OFFSET and a LIMIT or OFFSET beyond its
  64-bit integers. Without a LIMIT clause all rows after the offset are returned.
\<close>

definition int8_ok :: "int \<Rightarrow> bool" where
  "int8_ok v = (- (2 ^ 63) \<le> v \<and> v < 2 ^ 63)"

definition limit_clause :: "int option \<Rightarrow> int option" where
  "limit_clause lmt = (case lmt of None \<Rightarrow> None | Some l \<Rightarrow> if 0 \<le> l then Some l else None)"

definition offset_clause :: "int option \<Rightarrow> int option" where
  "offset_clause off = (case off of None \<Rightarrow> None | Some v \<Rightarrow> if v \<noteq> 0 then Some v else None)"

definition paginate :: "account_row list \<Rightarrow> int option \<Rightarrow> int option \<Rightarrow> error + account_row list" where
  "paginate rows lmt off =
    (if (case offset_clause off of None \<Rightarrow> False | Some v \<Rightarrow> v < 0 \<or> \<not> int8_ok v)
        \<or> (case limit_clause lmt of None \<Rightarrow> False | Some l \<Rightarrow> \<not> int8_ok l)
     then Inl StoreError
     else
       let skipped = (case offset_clause off of None \<Rightarrow> rows | Some v \<Rightarrow> drop (nat v) rows)
       in Inr (case limit_clause lmt of None \<Rightarrow> skipped | Some l \<Rightarrow> take (nat l) skipped))"

text \<open>
  \<^verbatim>\<open>GET /accounts\<close>. \<open>page_q\<close> and \<open>limit_q\<close> are the results of \<^verbatim>\<open>parseInt\<close> on the query
  parameters, \<open>None\<close> for \<open>NaN\<close>; \<open>NaN\<close> and 0 are replaced by the defaults 1 and 6, so
  the page and the limit are numbers other than 0, of either sign.
\<close>

definition list_accounts :: "store \<Rightarrow> int option \<Rightarrow> int option \<Rightarrow> error + listing" where
  "list_accounts st page_q limit_q =
    (let page = (case page_q of None \<Rightarrow> 1 | Some p \<Rightarrow> if p = 0 then 1 else p);
         lmt = (case limit_q of None \<Rightarrow> 6 | Some l \<Rightarrow> if l = 0 then 6 else l);
         off = (page - 1) * lmt;
         cnt = length (filter (\<lambda>a. acc_status a = Available) (accounts st))
     in case paginate (order_by_created_desc_id (filter (\<lambda>a. acc_status a = Available) (accounts st)))
               (Some lmt) (Some off) of
          Inl e \<Rightarrow> Inl e
        | Inr result \<Rightarrow>
           Inr \<lparr>listed = result,
                pages = \<lparr>currentPage = Some page, totalPages = ceil_div cnt (Some lmt),
                         totalCount = int cnt,
                         hasMore = has_more (Some page) (ceil_div cnt (Some lmt)),
                         page_limit = Some lmt\<rparr>\<rparr>)"

text \<open>\<^verbatim>\<open>split(',')\<close>: the pieces of a string between the code units of the separator.\<close>

fun split_on :: "nat \<Rightarrow> js_string \<Rightarrow> js_string list" where
  "split_on c [] = [[]]"
| "split_on c (x # xs) =
     (if x = c then [] # split_on c xs
      else (case split_on c xs of [] \<Rightarrow> [[x]] | w # ws \<Rightarrow> (x # w) # ws))"

text \<open>
  The query parameters of the search: an empty string or \<open>None\<close> stands for a parameter
  that is absent (or falsy). \<open>search_page\<close> and \<open>search_limit\<close> are the results of
  \<^verbatim>\<open>parseInt\<close> on the parameters \<open>page\<close> and \<open>limit\<close>, or on the defaults 1 and 6 when the
  parameter is absent; \<open>None\<close> is \<open>NaN\<close>.
\<close>

record search_params =
  query :: string
  platform_types :: js_string
  minSubscribers :: "int option"
  maxSubscribers :: "int option"
  isMonetized :: string
  search_creation_year :: "int option"
  search_page :: "int option"
  search_limit :: "int option"

text \<open>
  The list of conditions the handler builds; it starts with the status condition.
  \<open>ilike\<close> is the store's case-insensitive pattern match of a name against
  \<^verbatim>\<open>%query%\<close>, and \<open>lower\<close> the case table of the runtime.
\<close>

definition search_conditions ::
  "case_table \<Rightarrow> (string \<Rightarrow> string \<Rightarrow> bool) \<Rightarrow> search_params \<Rightarrow> (account_row \<Rightarrow> bool) list" where
  "search_conditions lower ilike q =
    [\<lambda>a. acc_status a = Available]
    @ (if query q \<noteq> [] then [\<lambda>a. ilike (acc_name a) (''%'' @ query q @ ''%'')] else [])
    @ (if platform_types q \<noteq> [] then
         (let types = filter (\<lambda>t. t \<noteq> [])
                        (map (\<lambda>t. toLowerCase lower (trim t)) (split_on 44 (platform_types q)))
          in if length types > 0 then [\<lambda>a. platform a \<in> set types] else [])
       else [])
    @ (case minSubscribers q of None \<Rightarrow> [] | Some n \<Rightarrow> [\<lambda>a. n \<le> subscriber_count a])
    @ (case maxSubscribers q of None \<Rightarrow> [] | Some n \<Rightarrow> [\<lambda>a. subscriber_count a \<le> n])
    @ (if isMonetized q \<noteq> [] then [\<lambda>a. is_monetized a = Some (isMonetized q = ''true'')] else [])
    @ (case search_creation_year q of None \<Rightarrow> [] | Some y \<Rightarrow> [\<lambda>a. creation_year a = Some y])"

definition js_offset :: "int option \<Rightarrow> int option \<Rightarrow> int option" where
  \<comment> \<open>\<^verbatim>\<open>(parseInt(page) - 1) * parseInt(limit)\<close>, \<open>NaN\<close> when one of them is\<close>
  "js_offset page lmt =
    (case (page, lmt) of (Some p, Some l) \<Rightarrow> Some ((p - 1) * l) | _ \<Rightarrow> None)"

definition search_accounts ::
  "case_table \<Rightarrow> (string \<Rightarrow> string \<Rightarrow> bool) \<Rightarrow> store \<Rightarrow> search_params \<Rightarrow> error + listing" where
  "search_accounts lower ilike st q =
    (let conditions = search_conditions lower ilike q;
         off = js_offset (search_page q) (search_limit q);
         filteredAccounts = filter (\<lambda>a. list_all (\<lambda>c. c a) conditions) (accounts st);
         cnt = length (filter (\<lambda>a. list_all (\<lambda>c. c a) conditions) (accounts st))
     in case paginate (order_by_created_desc_id filteredAccounts) (search_limit q) off of
          Inl e \<Rightarrow> Inl e
        | Inr results \<Rightarrow>
           Inr \<lparr>listed = results,
                pages = \<lparr>currentPage = search_page q, totalPages = ceil_div cnt (search_limit q),
                         totalCount = int cnt,
                         hasMore = has_more (search_page q) (ceil_div cnt (search_limit q)),
                         page_limit = search_limit q\<rparr>\<rparr>)"

section \<open>Listing an account (POST /accounts)\<close>

text \<open>
  One transaction: insert the account, then store the owner's bank details (columns that
  are not part of this model; \<open>bank_details\<close> tells whether the body carries all three).
  The status column is not set, so the row gets its default, 'available'. \<open>now\<close> is the
  value of \<^verbatim>\<open>defaultNow()\<close>.
\<close>

definition create_account ::
  "store \<Rightarrow> uuid \<Rightarrow> js_string \<Rightarrow> string \<Rightarrow> int \<Rightarrow> int \<Rightarrow> int option \<Rightarrow> bool option \<Rightarrow> int \<Rightarrow> bool
     \<Rightarrow> (error + account_row option) \<times> store" where
  "create_account st owner platform_type name_q price_q subscribers year monetized now bank_details =
    (if \<not> bank_details then (Inl MissingBankDetails, st)
     else if filter (\<lambda>u. user_id u = owner) (users st) = [] \<or> \<not> int4_ok price_q
             \<or> \<not> int4_ok subscribers \<or> \<not> int4_ok (to_number year)
     then (Inl StoreError, st)
     else
       let accountResult =
             [\<lparr>acc_id = next_id st, owner_id = owner, platform = platform_type, acc_name = name_q,
               price = price_q, acc_status = Available, subscriber_count = subscribers,
               creation_year = year, is_monetized = monetized, acc_created_at = now\<rparr>]
       in (Inr (first_row accountResult),
           st\<lparr>accounts := accounts st @ accountResult, next_id := Suc (next_id st)\<rparr>))"

section \<open>The operations of the workflow as one step function\<close>

datatype operation =
    ListAccount uuid js_string string int int "int option" "bool option" int
  | Reserve uuid "uuid option"
  | CreateOrder uuid uuid "int option" "js_string option"
  | CompleteOrder uuid
  | CancelOrder uuid
  | DeleteAccount uuid string
  | ReservationExpiry uuid

fun apply_op :: "store \<Rightarrow> operation \<Rightarrow> store" where
  "apply_op st (ListAccount owner pf nm pr subs yr mon now) =
     snd (create_account st owner pf nm pr subs yr mon now True)"
| "apply_op st (Reserve aid buyer) = snd (reserve st aid buyer)"
| "apply_op st (CreateOrder buyer aid amt receipt) = snd (createOrder st buyer aid amt receipt)"
| "apply_op st (CompleteOrder oid) = snd (update_order st oid ''completed'')"
| "apply_op st (CancelOrder oid) = snd (cancelOrder st oid)"
| "apply_op st (DeleteAccount aid tg) = snd (confirm_delete st aid tg)"
| "apply_op st (ReservationExpiry aid) = release_reservation st aid"

text \<open>
  The account that the order with identifier \<open>oid\<close> refers to is pending (or there is no
  such order): the situation in which the bot offers completion and cancellation.
\<close>

definition order_account_pending :: "store \<Rightarrow> uuid \<Rightarrow> bool" where
  "order_account_pending st oid =
    (case first_row (filter (\<lambda>r. ord_id r = oid) (orders st)) of
       None \<Rightarrow> True
     | Some ord \<Rightarrow> status_of st (account_id ord) = Some Pending)"

fun called_on_pending :: "store \<Rightarrow> operation \<Rightarrow> bool" where
  "called_on_pending st (CompleteOrder oid) = order_account_pending st oid"
| "called_on_pending st (CancelOrder oid) = order_account_pending st oid"
| "called_on_pending st _ = True"

text \<open>
  The edges of the status graph, on the status that a lookup of the account returns
  (\<open>None\<close>: no such account): created as available, available to pending, pending to
  available or sold, and an available account deleted.
\<close>

definition status_step :: "account_status option \<Rightarrow> account_status option \<Rightarrow> bool" where
  "status_step s s' =
    (s' = s \<or> (s = None \<and> s' = Some Available)
     \<or> (s = Some Available \<and> s' = Some Pending)
     \<or> (s = Some Pending \<and> (s' = Some Available \<or> s' = Some Sold))
     \<or> (s = Some Available \<and> s' = None))"

section \<open>Completions one after the other\<close>

text \<open>
  The seller and the price that a run of \<^verbatim>\<open>transfer_complete\<close> for the order reads: the
  owner and the price of the order's account, when the order, its buyer and its account
  exist.
\<close>

definition sale_of :: "store \<Rightarrow> uuid \<Rightarrow> (uuid \<times> int) option" where
  "sale_of st oid =
    (case first_row (filter (\<lambda>r. ord_id r = oid) (orders st)) of
       None \<Rightarrow> None
     | Some ord \<Rightarrow>
        (case get_user st (buyer_id ord) of
           None \<Rightarrow> None
         | Some _ \<Rightarrow>
            (case first_row (account_by_id st (account_id ord)) of
               None \<Rightarrow> None
             | Some acc \<Rightarrow> Some (owner_id acc, price acc))))"

definition credited_price :: "store \<Rightarrow> uuid \<Rightarrow> int" where
  "credited_price st oid = (case sale_of st oid of None \<Rightarrow> 0 | Some (_, p) \<Rightarrow> p)"

fun complete_all :: "store \<Rightarrow> uuid list \<Rightarrow> store" where
  "complete_all st [] = st"
| "complete_all st (oid # oids) = complete_all (snd (transfer_complete st oid)) oids"

section \<open>An example ledger\<close>

text \<open>
  A seller with one listed channel priced 500 and a second one priced 300, and two
  buyers. The theorems below are evaluated on it.
\<close>

definition demo_seller :: user_row where
  "demo_seller = \<lparr>user_id = 1, telegram_user_id = ''7001'', username = ''seller'', balance = Some 0\<rparr>"

definition demo_buyer_a :: user_row where
  "demo_buyer_a = \<lparr>user_id = 2, telegram_user_id = ''7002'', username = ''buyer_a'', balance = Some 0\<rparr>"

definition demo_buyer_b :: user_row where
  "demo_buyer_b = \<lparr>user_id = 3, telegram_user_id = ''7003'', username = ''buyer_b'', balance = Some 50\<rparr>"

definition demo_account :: account_row where
  "demo_account = \<lparr>acc_id = 10, owner_id = 1, platform = js ''telegram_channel'', acc_name = ''News'',
     price = 500, acc_status = Available, subscriber_count = 1200, creation_year = Some 2020,
     is_monetized = Some False, acc_created_at = 100\<rparr>"

definition demo_account2 :: account_row where
  "demo_account2 = \<lparr>acc_id = 11, owner_id = 1, platform = js ''youtube_channel'', acc_name = ''Clips'',
     price = 300, acc_status = Available, subscriber_count = 40, creation_year = None,
     is_monetized = None, acc_created_at = 200\<rparr>"

definition demo_store :: store where
  "demo_store = \<lparr>users = [demo_seller, demo_buyer_a, demo_buyer_b],
     accounts = [demo_account, demo_account2], orders = [], transfers = [], withdrawals = [],
     timers = [], next_id = 20\<rparr>"

text \<open>
  The ledger after buyer 2 has reserved account 10, after the buyer's order for it has
  been created, and after that order has been set to 'failed' with \<^verbatim>\<open>PUT /orders/:id\<close>.
\<close>

definition demo_reserved :: store where
  "demo_reserved = snd (reserve demo_store 10 (Some 2))"

definition demo_ordered :: store where
  "demo_ordered = snd (createOrder demo_reserved 2 10 (Some 500) (Some (js ''FT1'')))"

definition demo_failed_order :: store where
  "demo_failed_order = snd (update_order demo_ordered 20 ''failed'')"

text \<open>
  A Telebirr verifier that knows four receipts (the settled amount of the last one has
  no digits, so that \<^verbatim>\<open>parseFloat\<close> gives \<open>NaN\<close>), a CBE answer, and the sessions of
  buyer 2 after the choice of the payment method for account 10.
\<close>

definition demo_api :: "js_string \<Rightarrow> telebirr_response option" where
  "demo_api reference =
    (if reference = js ''FT1'' then
       Some \<lparr>success = True, data = \<lparr>creditedPartyName = js ''Kaleb Mate Megane'', settledAmount = Num 500\<rparr>\<rparr>
     else if reference = js ''FT2'' then
       Some \<lparr>success = True, data = \<lparr>creditedPartyName = js ''Kaleb Mate Megane'', settledAmount = Num 250\<rparr>\<rparr>
     else if reference = js ''FT3'' then
       Some \<lparr>success = True, data = \<lparr>creditedPartyName = js ''Someone Else'', settledAmount = Num 500\<rparr>\<rparr>
     else if reference = js ''FT4'' then
       Some \<lparr>success = True, data = \<lparr>creditedPartyName = js ''Kaleb Mate Megane'', settledAmount = NaN\<rparr>\<rparr>
     else None)"

text \<open>The receiver of the CBE answer ends with a no-break space.\<close>

definition demo_cbe :: cbe_response where
  "demo_cbe = \<lparr>cbe_success = True, cbe_message = ''ok'',
     cbe_data = \<lparr>receiver = js '' kaleb mate'' @ [160], cbe_amount = Some 500,
                 cbe_transaction = Some (js ''FT9'')\<rparr>\<rparr>"

text \<open>A case table that leaves the code points beyond ASCII as they are.\<close>

definition demo_case :: case_table where
  "demo_case before after cp = (if cp < 65536 then [cp] else [55296 + (cp - 65536) div 1024, 56320 + (cp - 65536) mod 1024])"

definition demo_session_telebirr :: session where
  "demo_session_telebirr =
     \<lparr>pendingAccountId = Some 10, pendingPaymentMethod = Some ''telebirr'', pendingAccountPrice = Some 500\<rparr>"

definition demo_session_cbe :: session where
  "demo_session_cbe =
     \<lparr>pendingAccountId = Some 10, pendingPaymentMethod = Some ''cbe'', pendingAccountPrice = Some 600\<rparr>"

text \<open>
  The ledger after buyer 3 has also reserved and ordered account 11 of the same seller;
  the ledger after order 20 has been completed; and the ledger with a second order on
  account 10 after the first one has been cancelled.
\<close>

definition demo_two_orders :: store where
  "demo_two_orders =
     snd (createOrder (snd (reserve demo_ordered 11 (Some 3))) 3 11 (Some 300) (Some (js ''FT5'')))"

definition demo_completed :: store where
  "demo_completed = snd (update_order demo_ordered 20 ''completed'')"

definition demo_second_order_left :: store where
  "demo_second_order_left =
     snd (cancelOrder (snd (createOrder demo_ordered 3 10 (Some 500) (Some (js ''FT6'')))) 20)"

text \<open>A search for monetization-agnostic Telegram and YouTube channels named like "s".\<close>

definition demo_query :: search_params where
  "demo_query = \<lparr>query = ''s'', platform_types = js ''Telegram_Channel, youtube_channel,'',
     minSubscribers = Some 10, maxSubscribers = None, isMonetized = [],
     search_creation_year = None, search_page = Some 1, search_limit = Some 6\<rparr>"

definition demo_ilike :: "string \<Rightarrow> string \<Rightarrow> bool" where
  "demo_ilike name pattern = (pattern = ''%s%'' \<and> (CHR ''s'' \<in> set name \<or> CHR ''S'' \<in> set name))"

lemmas demo_defs =
  demo_store_def demo_account_def demo_account2_def demo_seller_def demo_buyer_a_def demo_buyer_b_def

lemmas store_defs =
  first_row_def account_by_id_def status_of_def set_status_def int4_ok_def to_number_def

lemmas op_defs =
  reserve_def createOrder_def insert_order_def update_order_def cancelOrder_def
  release_reservation_def cleanup_completed_order_def orders_of_def active_orders_of_def
  is_active_def referenced_by_transfer_def

lemma demo_reserved_eval:
  "demo_reserved =
     \<lparr>users = [demo_seller, demo_buyer_a, demo_buyer_b],
      accounts = [demo_account\<lparr>acc_status := Pending\<rparr>, demo_account2],
      orders = [], transfers = [], withdrawals = [],
      timers = [\<lparr>delay_ms = 600000, timer_task = ReleaseReservation 10\<rparr>], next_id = 20\<rparr>"
  by (simp add: demo_reserved_def op_defs store_defs demo_defs)

lemma demo_ordered_eval:
  "demo_ordered =
     \<lparr>users = [demo_seller, demo_buyer_a, demo_buyer_b],
      accounts = [demo_account\<lparr>acc_status := Pending\<rparr>, demo_account2],
      orders = [\<lparr>ord_id = 20, buyer_id = 2, account_id = 10, amount = 500,
                 ord_status = ''pending'', receipt_no = Some (js ''FT1'')\<rparr>],
      transfers = [], withdrawals = [],
      timers = [\<lparr>delay_ms = 600000, timer_task = ReleaseReservation 10\<rparr>], next_id = 21\<rparr>"
  by (simp add: demo_ordered_def demo_reserved_eval op_defs store_defs demo_defs)

lemma demo_failed_order_eval:
  "demo_failed_order =
     \<lparr>users = [demo_seller, demo_buyer_a, demo_buyer_b],
      accounts = [demo_account\<lparr>acc_status := Pending\<rparr>, demo_account2],
      orders = [\<lparr>ord_id = 20, buyer_id = 2, account_id = 10, amount = 500,
                 ord_status = ''failed'', receipt_no = Some (js ''FT1'')\<rparr>],
      transfers = [], withdrawals = [],
      timers = [\<lparr>delay_ms = 600000, timer_task = ReleaseReservation 10\<rparr>], next_id = 21\<rparr>"
  by (simp add: demo_failed_order_def demo_ordered_eval op_defs store_defs demo_defs)

section \<open>Reservation: atomic check-and-set\<close>

lemma account_by_id_set_status:
  "filter (\<lambda>a. acc_id a = aid) (set_status s aid rows) =
     map (\<lambda>r. r\<lparr>acc_status := s\<rparr>) (filter (\<lambda>a. acc_id a = aid) rows)"
  by (induction rows) (auto simp: set_status_def)

lemma account_by_id_set_status_other:
  "other \<noteq> aid \<Longrightarrow>
     filter (\<lambda>a. acc_id a = other) (set_status s aid rows) = filter (\<lambda>a. acc_id a = other) rows"
  by (induction rows) (auto simp: set_status_def)

lemma status_of_after_set:
  "status_of st aid = Some s \<Longrightarrow>
   status_of (st\<lparr>accounts := set_status s' aid (accounts st)\<rparr>) aid = Some s'"
  by (auto simp: status_of_def account_by_id_def account_by_id_set_status first_row_def
           split: list.splits)

lemma reserve_not_available:
  "status_of st aid \<noteq> Some Available \<Longrightarrow> reserve st aid (Some b) = (Inl NotAvailable, st)"
  by (auto simp: reserve_def status_of_def first_row_def split: list.splits)

lemma reserve_available:
  assumes "status_of st aid = Some Available"
  shows "\<exists>a. first_row (account_by_id st aid) = Some a \<and>
      reserve st aid (Some b) =
        (Inr (Some (a\<lparr>acc_status := Pending\<rparr>)),
         st\<lparr>accounts := set_status Pending aid (accounts st),
            timers := timers st @ [\<lparr>delay_ms = 600000, timer_task = ReleaseReservation aid\<rparr>]\<rparr>)"
  using assms
  by (auto simp: reserve_def status_of_def first_row_def split: list.splits)

lemma reserve_all_taken:
  "status_of st aid \<noteq> Some Available \<Longrightarrow>
     reserve_all st aid bs = (replicate (length bs) (Inl NotAvailable), st)"
  by (induction bs) (auto simp: reserve_not_available)


text \<open>
  Claim C1. A reservation with a buyer fails with \<open>NotAvailable\<close> and leaves the store as
  it is unless the account's status is 'available'. Otherwise it returns the account's
  row with status 'pending', the account is pending in the new store and no other
  account is touched. Of the reservation attempts of any buyers \<open>b # bs\<close> on an available
  account, served in that order, the first succeeds and every other one is answered
  \<open>NotAvailable\<close>.
\<close>

theorem reserve_check_and_set:
  "(status_of st aid \<noteq> Some Available \<longrightarrow> reserve st aid (Some b) = (Inl NotAvailable, st)) \<and>
   (status_of st aid = Some Available \<longrightarrow>
      (\<exists>a. first_row (account_by_id st aid) = Some a \<and>
           fst (reserve st aid (Some b)) = Inr (Some (a\<lparr>acc_status := Pending\<rparr>)) \<and>
           status_of (snd (reserve st aid (Some b))) aid = Some Pending \<and>
           (\<forall>r \<in> set (account_by_id (snd (reserve st aid (Some b))) aid). acc_status r = Pending) \<and>
           (\<forall>other. other \<noteq> aid \<longrightarrow>
               account_by_id (snd (reserve st aid (Some b))) other = account_by_id st other) \<and>
           fst (reserve_all st aid (b # bs)) =
             Inr (Some (a\<lparr>acc_status := Pending\<rparr>)) # replicate (length bs) (Inl NotAvailable)))"
proof (intro conjI impI)
  assume "status_of st aid \<noteq> Some Available"
  then show "reserve st aid (Some b) = (Inl NotAvailable, st)"
    by (rule reserve_not_available)
next
  assume avail: "status_of st aid = Some Available"
  define st' where "st' = st\<lparr>accounts := set_status Pending aid (accounts st),
            timers := timers st @ [\<lparr>delay_ms = 600000, timer_task = ReleaseReservation aid\<rparr>]\<rparr>"
  from reserve_available [OF avail, of b] obtain a where
    a: "first_row (account_by_id st aid) = Some a" and
    r: "reserve st aid (Some b) = (Inr (Some (a\<lparr>acc_status := Pending\<rparr>)), st')"
    unfolding st'_def by blast
  have rows: "account_by_id st' aid = map (\<lambda>r. r\<lparr>acc_status := Pending\<rparr>) (account_by_id st aid)"
    by (simp add: st'_def account_by_id_def account_by_id_set_status)
  have pend: "status_of st' aid = Some Pending"
    using a by (auto simp: status_of_def rows first_row_def split: list.splits)
  have allp: "\<forall>r \<in> set (account_by_id st' aid). acc_status r = Pending"
    by (auto simp: rows)
  have frame: "\<forall>other. other \<noteq> aid \<longrightarrow> account_by_id st' other = account_by_id st other"
    by (simp add: st'_def account_by_id_def account_by_id_set_status_other)
  have rest: "reserve_all st' aid bs = (replicate (length bs) (Inl NotAvailable), st')"
    by (rule reserve_all_taken) (simp add: pend)
  have seq: "fst (reserve_all st aid (b # bs)) =
      Inr (Some (a\<lparr>acc_status := Pending\<rparr>)) # replicate (length bs) (Inl NotAvailable)"
    by (simp add: r rest)
  show "\<exists>a. first_row (account_by_id st aid) = Some a \<and>
           fst (reserve st aid (Some b)) = Inr (Some (a\<lparr>acc_status := Pending\<rparr>)) \<and>
           status_of (snd (reserve st aid (Some b))) aid = Some Pending \<and>
           (\<forall>r \<in> set (account_by_id (snd (reserve st aid (Some b))) aid). acc_status r = Pending) \<and>
           (\<forall>other. other \<noteq> aid \<longrightarrow>
               account_by_id (snd (reserve st aid (Some b))) other = account_by_id st other) \<and>
           fst (reserve_all st aid (b # bs)) =
             Inr (Some (a\<lparr>acc_status := Pending\<rparr>)) # replicate (length bs) (Inl NotAvailable)"
    using a pend allp frame seq by (intro exI [of _ a]) (simp add: r)
qed

theorem reserve_check_and_set_witness:
  "status_of demo_store 10 = Some Available \<and>
   fst (reserve demo_store 10 (Some 2)) = Inr (Some (demo_account\<lparr>acc_status := Pending\<rparr>)) \<and>
   status_of (snd (reserve demo_store 10 (Some 2))) 10 = Some Pending \<and>
   status_of (snd (reserve demo_store 10 (Some 2))) 11 = Some Available \<and>
   fst (reserve_all demo_store 10 [2, 3, 2]) =
     [Inr (Some (demo_account\<lparr>acc_status := Pending\<rparr>)), Inl NotAvailable, Inl NotAvailable] \<and>
   reserve (snd (reserve demo_store 10 (Some 2))) 10 (Some 3) =
     (Inl NotAvailable, snd (reserve demo_store 10 (Some 2)))"
proof -
  have avail: "status_of demo_store 10 = Some Available"
    by (simp add: store_defs demo_defs)
  have first: "first_row (account_by_id demo_store 10) = Some demo_account"
    by (simp add: store_defs demo_defs)
  have other: "status_of demo_store 11 = Some Available"
    by (simp add: store_defs demo_defs)
  from reserve_check_and_set [of demo_store 10 2 "[3, 2]"] avail first
  have ok: "fst (reserve demo_store 10 (Some 2)) = Inr (Some (demo_account\<lparr>acc_status := Pending\<rparr>))"
    and pend: "status_of (snd (reserve demo_store 10 (Some 2))) 10 = Some Pending"
    and frame: "account_by_id (snd (reserve demo_store 10 (Some 2))) 11 = account_by_id demo_store 11"
    and seq: "fst (reserve_all demo_store 10 [2, 3, 2]) =
     [Inr (Some (demo_account\<lparr>acc_status := Pending\<rparr>)), Inl NotAvailable, Inl NotAvailable]"
    by (auto simp: numeral_eq_Suc)
  from reserve_check_and_set [of "snd (reserve demo_store 10 (Some 2))" 10 3] pend
  have again: "reserve (snd (reserve demo_store 10 (Some 2))) 10 (Some 3) =
     (Inl NotAvailable, snd (reserve demo_store 10 (Some 2)))"
    by simp
  show ?thesis
    using avail ok pend other frame seq again by (simp add: status_of_def)
qed


section \<open>Reservation expiry\<close>

text \<open>
  Against claim C8 as stated: in the ledger where the reserved account's only order has
  been set to 'failed', an order that refers to the account exists, and the release
  task still makes the account available.
\<close>

theorem release_with_order_counterexample:
  "orders_of demo_failed_order 10 \<noteq> [] \<and>
   status_of demo_failed_order 10 = Some Pending \<and>
   status_of (release_reservation demo_failed_order 10) 10 = Some Available \<and>
   release_reservation demo_failed_order 10 \<noteq> demo_failed_order"
  by (simp add: demo_failed_order_eval op_defs store_defs demo_defs)

lemma release_noop_not_pending:
  "status_of st aid \<noteq> Some Pending \<Longrightarrow> release_reservation st aid = st"
  by (auto simp: release_reservation_def status_of_def first_row_def split: list.splits)

lemma release_noop_pending_order:
  "filter (\<lambda>ord. account_id ord = aid \<and> ord_status ord = ''pending'') (orders st) \<noteq> [] \<Longrightarrow>
     release_reservation st aid = st"
  by (auto simp: release_reservation_def Let_def split: list.splits)

lemma release_frees:
  "status_of st aid = Some Pending \<Longrightarrow>
   filter (\<lambda>ord. account_id ord = aid \<and> ord_status ord = ''pending'') (orders st) = [] \<Longrightarrow>
     release_reservation st aid = st\<lparr>accounts := set_status Available aid (accounts st)\<rparr>"
  by (auto simp: release_reservation_def status_of_def first_row_def Let_def split: list.splits)

lemma release_idempotent:
  "release_reservation (release_reservation st aid) aid = release_reservation st aid"
proof (cases "status_of st aid = Some Pending \<and>
    filter (\<lambda>ord. account_id ord = aid \<and> ord_status ord = ''pending'') (orders st) = []")
  case True
  then have eq: "release_reservation st aid = st\<lparr>accounts := set_status Available aid (accounts st)\<rparr>"
    by (simp add: release_frees)
  have "status_of (st\<lparr>accounts := set_status Available aid (accounts st)\<rparr>) aid = Some Available"
    using True by (simp add: status_of_after_set)
  then show ?thesis
    by (simp add: eq release_noop_not_pending)
next
  case False
  then have "release_reservation st aid = st"
    by (auto simp: release_noop_not_pending release_noop_pending_order)
  then show ?thesis by simp
qed

text \<open>
  Claim C8, amended. A successful reservation schedules one release task with a delay of
  10 minutes. When the task runs and the account is still pending and no order with
  status 'pending' refers to it, the account becomes available. When a pending order
  refers to it, or the account is not pending (available again, sold, or deleted), the
  task changes nothing; running it a second time changes nothing either.
\<close>

theorem release_reservation_expiry:
  "(status_of st aid = Some Available \<longrightarrow>
      timers (snd (reserve st aid (Some b))) =
        timers st @ [\<lparr>delay_ms = 10 * 60 * 1000, timer_task = ReleaseReservation aid\<rparr>]) \<and>
   (status_of st aid = Some Pending \<and>
    filter (\<lambda>ord. account_id ord = aid \<and> ord_status ord = ''pending'') (orders st) = [] \<longrightarrow>
      release_reservation st aid = st\<lparr>accounts := set_status Available aid (accounts st)\<rparr> \<and>
      status_of (release_reservation st aid) aid = Some Available) \<and>
   (filter (\<lambda>ord. account_id ord = aid \<and> ord_status ord = ''pending'') (orders st) \<noteq> [] \<longrightarrow>
      release_reservation st aid = st) \<and>
   (status_of st aid \<noteq> Some Pending \<longrightarrow> release_reservation st aid = st) \<and>
   release_reservation (release_reservation st aid) aid = release_reservation st aid"
proof (intro conjI impI)
  assume "status_of st aid = Some Available"
  from reserve_available [OF this, of b]
  show "timers (snd (reserve st aid (Some b))) =
        timers st @ [\<lparr>delay_ms = 10 * 60 * 1000, timer_task = ReleaseReservation aid\<rparr>]"
    by auto
next
  assume h: "status_of st aid = Some Pending \<and>
    filter (\<lambda>ord. account_id ord = aid \<and> ord_status ord = ''pending'') (orders st) = []"
  then show "release_reservation st aid = st\<lparr>accounts := set_status Available aid (accounts st)\<rparr>"
    by (simp add: release_frees)
  with h show "status_of (release_reservation st aid) aid = Some Available"
    by (simp add: status_of_after_set)
next
  assume "filter (\<lambda>ord. account_id ord = aid \<and> ord_status ord = ''pending'') (orders st) \<noteq> []"
  then show "release_reservation st aid = st" by (rule release_noop_pending_order)
next
  assume "status_of st aid \<noteq> Some Pending"
  then show "release_reservation st aid = st" by (rule release_noop_not_pending)
next
  show "release_reservation (release_reservation st aid) aid = release_reservation st aid"
    by (rule release_idempotent)
qed

theorem release_reservation_expiry_witness:
  "timers (snd (reserve demo_store 10 (Some 2))) =
     [\<lparr>delay_ms = 600000, timer_task = ReleaseReservation 10\<rparr>] \<and>
   status_of demo_reserved 10 = Some Pending \<and>
   status_of (release_reservation demo_reserved 10) 10 = Some Available \<and>
   orders_of demo_ordered 10 \<noteq> [] \<and>
   release_reservation demo_ordered 10 = demo_ordered \<and>
   release_reservation demo_store 10 = demo_store \<and>
   release_reservation (release_reservation demo_reserved 10) 10 = release_reservation demo_reserved 10"
proof -
  have a: "status_of demo_store 10 = Some Available"
    by (simp add: store_defs demo_defs)
  have p: "status_of demo_reserved 10 = Some Pending"
    by (simp add: demo_reserved_eval store_defs demo_defs)
  have none: "filter (\<lambda>ord. account_id ord = 10 \<and> ord_status ord = ''pending'') (orders demo_reserved) = []"
    by (simp add: demo_reserved_eval)
  have some: "filter (\<lambda>ord. account_id ord = 10 \<and> ord_status ord = ''pending'') (orders demo_ordered) \<noteq> []"
    by (simp add: demo_ordered_eval)
  have o: "orders_of demo_ordered 10 \<noteq> []"
    by (simp add: demo_ordered_eval orders_of_def)
  have t: "timers (snd (reserve demo_store 10 (Some 2))) =
     [\<lparr>delay_ms = 600000, timer_task = ReleaseReservation 10\<rparr>]"
    using release_reservation_expiry [of demo_store 10 2] a by (simp add: demo_defs)
  have n: "release_reservation demo_store 10 = demo_store"
    using release_reservation_expiry [of demo_store 10 2] a by simp
  have f: "status_of (release_reservation demo_reserved 10) 10 = Some Available"
    and i: "release_reservation (release_reservation demo_reserved 10) 10 =
      release_reservation demo_reserved 10"
    using release_reservation_expiry [of demo_reserved 10 2] p none by blast+
  have k: "release_reservation demo_ordered 10 = demo_ordered"
    using release_reservation_expiry [of demo_ordered 10 2] some by simp
  show ?thesis
    using t p f o k n i by simp
qed


section \<open>Order creation\<close>

text \<open>
  Against claim C2 as stated: account 10 has an active order of buyer 2 with receipt
  FT1; creating an order for the same buyer, account and receipt again is not refused,
  and the account then has two active orders.
\<close>

theorem createOrder_duplicate_counterexample:
  "active_orders_of demo_ordered 10 \<noteq> [] \<and>
   fst (createOrder demo_ordered 2 10 (Some 500) (Some (js ''FT1''))) \<noteq> Inl DuplicateActiveOrder \<and>
   length (orders (snd (createOrder demo_ordered 2 10 (Some 500) (Some (js ''FT1''))))) = 2 \<and>
   length (active_orders_of (snd (createOrder demo_ordered 2 10 (Some 500) (Some (js ''FT1'')))) 10) = 2"
  by (simp add: demo_ordered_eval op_defs store_defs demo_defs)

lemma check_order_duplicate_iff:
  "(check_order st (Some buyer) (Some account) = Inl DuplicateActiveOrder) =
     (\<exists>ord \<in> set (orders st). buyer_id ord = buyer \<and> account_id ord = account \<and> is_active ord)"
proof -
  have "(take 1 (filter P xs) \<noteq> []) = (\<exists>x \<in> set xs. P x)" for P :: "order_row \<Rightarrow> bool" and xs
    by (simp add: filter_empty_conv)
  then show ?thesis
    by (auto simp: check_order_def Let_def)
qed

lemma createOrder_index_duplicate:
  "\<exists>ord \<in> set (orders st). buyer_id ord = buyer \<and> account_id ord = account \<and> is_active ord \<Longrightarrow>
     createOrder_index st buyer account amt = (Inl DuplicateActiveOrder, st)"
proof -
  assume "\<exists>ord \<in> set (orders st). buyer_id ord = buyer \<and> account_id ord = account \<and> is_active ord"
  then have "filter (\<lambda>ord. buyer_id ord = buyer \<and> account_id ord = account \<and> is_active ord) (orders st) \<noteq> []"
    by (auto simp: filter_empty_conv)
  then show ?thesis
    by (simp add: createOrder_index_def Let_def)
qed

lemma createOrder_index_fresh:
  "\<not> (\<exists>ord \<in> set (orders st). buyer_id ord = buyer \<and> account_id ord = account \<and> is_active ord) \<Longrightarrow>
     createOrder_index st buyer account amt = insert_order st buyer account amt None"
proof -
  assume "\<not> (\<exists>ord \<in> set (orders st). buyer_id ord = buyer \<and> account_id ord = account \<and> is_active ord)"
  then have "filter (\<lambda>ord. buyer_id ord = buyer \<and> account_id ord = account \<and> is_active ord) (orders st) = []"
    by (auto simp: filter_empty_conv)
  then show ?thesis
    by (simp add: createOrder_index_def Let_def)
qed

lemma insert_order_never_duplicate:
  "fst (insert_order st buyer account amt receipt) \<noteq> Inl DuplicateActiveOrder"
  by (simp add: insert_order_def Let_def split: option.splits)

text \<open>
  Claim C2, amended. \<^verbatim>\<open>POST /orders\<close> makes no duplicate check: for an existing buyer, an
  existing account and an amount in range it inserts and returns an order with status
  'pending', and it never answers \<open>DuplicateActiveOrder\<close>. The duplicate check is the
  separate order check (and, in \<^verbatim>\<open>index.js\<close>, the first step of \<^verbatim>\<open>POST /orders\<close>): it
  fails exactly when the same buyer has an active order for the account, and then
  nothing is inserted.
\<close>

theorem createOrder_inserts_pending:
  "(get_user st buyer \<noteq> None \<and> account_by_id st account \<noteq> [] \<and> int4_ok v \<longrightarrow>
      createOrder st buyer account (Some v) receipt =
        (Inr (Some \<lparr>ord_id = next_id st, buyer_id = buyer, account_id = account, amount = v,
                     ord_status = ''pending'', receipt_no = receipt\<rparr>),
         st\<lparr>orders := orders st @
               [\<lparr>ord_id = next_id st, buyer_id = buyer, account_id = account, amount = v,
                 ord_status = ''pending'', receipt_no = receipt\<rparr>],
            next_id := Suc (next_id st)\<rparr>)) \<and>
   fst (createOrder st buyer account amt receipt) \<noteq> Inl DuplicateActiveOrder \<and>
   ((check_order st (Some buyer) (Some account) = Inl DuplicateActiveOrder) =
      (\<exists>ord \<in> set (orders st). buyer_id ord = buyer \<and> account_id ord = account \<and> is_active ord)) \<and>
   ((\<exists>ord \<in> set (orders st). buyer_id ord = buyer \<and> account_id ord = account \<and> is_active ord) \<longrightarrow>
      createOrder_index st buyer account amt = (Inl DuplicateActiveOrder, st)) \<and>
   (\<not> (\<exists>ord \<in> set (orders st). buyer_id ord = buyer \<and> account_id ord = account \<and> is_active ord) \<longrightarrow>
      createOrder_index st buyer account amt = insert_order st buyer account amt None)"
proof (intro conjI impI)
  assume "get_user st buyer \<noteq> None \<and> account_by_id st account \<noteq> [] \<and> int4_ok v"
  then show "createOrder st buyer account (Some v) receipt =
        (Inr (Some \<lparr>ord_id = next_id st, buyer_id = buyer, account_id = account, amount = v,
                     ord_status = ''pending'', receipt_no = receipt\<rparr>),
         st\<lparr>orders := orders st @
               [\<lparr>ord_id = next_id st, buyer_id = buyer, account_id = account, amount = v,
                 ord_status = ''pending'', receipt_no = receipt\<rparr>],
            next_id := Suc (next_id st)\<rparr>)"
    by (auto simp: createOrder_def insert_order_def get_user_def first_row_def Let_def
             split: list.splits)
next
  show "fst (createOrder st buyer account amt receipt) \<noteq> Inl DuplicateActiveOrder"
    by (simp add: createOrder_def insert_order_never_duplicate)
next
  show "(check_order st (Some buyer) (Some account) = Inl DuplicateActiveOrder) =
      (\<exists>ord \<in> set (orders st). buyer_id ord = buyer \<and> account_id ord = account \<and> is_active ord)"
    by (rule check_order_duplicate_iff)
next
  assume "\<exists>ord \<in> set (orders st). buyer_id ord = buyer \<and> account_id ord = account \<and> is_active ord"
  then show "createOrder_index st buyer account amt = (Inl DuplicateActiveOrder, st)"
    by (rule createOrder_index_duplicate)
next
  assume "\<not> (\<exists>ord \<in> set (orders st). buyer_id ord = buyer \<and> account_id ord = account \<and> is_active ord)"
  then show "createOrder_index st buyer account amt = insert_order st buyer account amt None"
    by (rule createOrder_index_fresh)
qed

theorem createOrder_inserts_pending_witness:
  "createOrder demo_reserved 2 10 (Some 500) (Some (js ''FT1'')) =
     (Inr (Some \<lparr>ord_id = 20, buyer_id = 2, account_id = 10, amount = 500,
                  ord_status = ''pending'', receipt_no = Some (js ''FT1'')\<rparr>), demo_ordered) \<and>
   check_order demo_ordered (Some 2) (Some 10) = Inl DuplicateActiveOrder \<and>
   check_order demo_ordered (Some 3) (Some 10) \<noteq> Inl DuplicateActiveOrder \<and>
   createOrder_index demo_ordered 2 10 (Some 500) = (Inl DuplicateActiveOrder, demo_ordered) \<and>
   createOrder_index demo_ordered 3 10 (Some 500) = insert_order demo_ordered 3 10 (Some 500) None"
proof -
  have pre: "get_user demo_reserved 2 \<noteq> None \<and> account_by_id demo_reserved 10 \<noteq> [] \<and> int4_ok 500"
    by (simp add: demo_reserved_eval get_user_def store_defs demo_defs)
  have dup: "\<exists>ord \<in> set (orders demo_ordered). buyer_id ord = 2 \<and> account_id ord = 10 \<and> is_active ord"
    by (simp add: demo_ordered_eval is_active_def)
  have nodup: "\<not> (\<exists>ord \<in> set (orders demo_ordered). buyer_id ord = 3 \<and> account_id ord = 10 \<and> is_active ord)"
    by (simp add: demo_ordered_eval is_active_def)
  have c: "createOrder demo_reserved 2 10 (Some 500) (Some (js ''FT1'')) =
     (Inr (Some \<lparr>ord_id = 20, buyer_id = 2, account_id = 10, amount = 500,
                  ord_status = ''pending'', receipt_no = Some (js ''FT1'')\<rparr>), demo_ordered)"
    using createOrder_inserts_pending [of demo_reserved 2 10 500 "Some (js ''FT1'')" "Some 500"] pre
    by (simp add: demo_ordered_eval demo_reserved_eval)
  have d: "check_order demo_ordered (Some 2) (Some 10) = Inl DuplicateActiveOrder"
    and e: "createOrder_index demo_ordered 2 10 (Some 500) = (Inl DuplicateActiveOrder, demo_ordered)"
    using createOrder_inserts_pending [of demo_ordered 2 10 500 None "Some 500"] dup by blast+
  have f: "check_order demo_ordered (Some 3) (Some 10) \<noteq> Inl DuplicateActiveOrder"
    and g: "createOrder_index demo_ordered 3 10 (Some 500) = insert_order demo_ordered 3 10 (Some 500) None"
    using createOrder_inserts_pending [of demo_ordered 3 10 500 None "Some 500"] nodup by blast+
  show ?thesis using c d e f g by blast
qed


section \<open>Payment verification\<close>

lemma js_eq_iff: "js a = js b \<longleftrightarrow> a = b"
  by (simp add: js_def inj_map_eq_map inj_on_def)

lemma js_Nil_iff: "js a = [] \<longleftrightarrow> a = []"
  by (simp add: js_def)

lemmas string_defs =
  js_def toUpperCase_def to_upper_ascii_def toLowerCase_def to_lower_ascii_def trim_def
  is_white_space_def validReceivers_def isValidReceiver_def

lemma isValidReceiver_iff:
  "isValidReceiver upper r =
     (\<exists>name \<in> set validReceivers. toUpperCase upper name = toUpperCase upper (trim r))"
  by (simp add: isValidReceiver_def Let_def list_ex_iff)

lemma telebirr_receiver_valid: "isValidReceiver upper (js ''Kaleb Mate Megane'')"
  by (simp add: string_defs)

lemma verify_payment_success:
  assumes "verify_payment api apiKey reference amt = Inr d"
  shows "\<exists>e. amt = Some e \<and> e \<noteq> 0 \<and> \<not> js_lt (settledAmount d) (Num e) \<and>
             creditedPartyName d = js ''Kaleb Mate Megane''"
  using assms
  by (auto simp: verify_payment_def Let_def split: if_splits option.splits)

lemma verify_payment_mismatch:
  assumes "api reference = Some r" "success r" "reference \<noteq> []" "apiKey" "e \<noteq> 0"
    and "js_lt (settledAmount (data r)) (Num e) \<or> \<not> isValidReceiver upper (creditedPartyName (data r))"
  shows "verify_payment api apiKey reference (Some e) = Inl PaymentMismatch"
  using assms telebirr_receiver_valid [of upper]
  by (auto simp: verify_payment_def Let_def)

lemma cbe_validate_success:
  assumes "cbe_validate upper c accountPrice = Inr a"
  shows "cbe_amount c = Some a \<and> accountPrice = Some a \<and> isValidReceiver upper (receiver c)"
  using assms
  by (auto simp: cbe_validate_def split: if_splits option.splits)

lemma cbe_validate_mismatch:
  assumes "\<not> isValidReceiver upper (receiver c) \<or> cbe_amount c = None \<or> cbe_amount c \<noteq> accountPrice"
  shows "cbe_validate upper c accountPrice = Inl PaymentMismatch"
  using assms
  by (auto simp: cbe_validate_def split: if_splits option.splits)

lemma on_text_no_order:
  assumes "verify_payment api apiKey (trim msg) (map_option of_int (pendingAccountPrice s)) = Inl e"
  shows "snd (snd (on_text api apiKey st s tg msg)) = st"
  using assms
  by (auto simp: on_text_def Let_def split: option.splits)

lemma on_photo_no_order:
  assumes "verifyRes = None \<or> (\<exists>v. verifyRes = Some v \<and>
             (\<not> cbe_success v \<or> cbe_validate upper (cbe_data v) (pendingAccountPrice s) = Inl e))"
  shows "snd (snd (on_photo upper verifyRes st s tg)) = st"
  using assms
  by (auto simp: on_photo_def Let_def split: option.splits)

text \<open>
  What the two verification paths enforce. A verification that succeeds has a settled
  amount that the handler's comparison does not find below the expected amount, so a
  settled amount that is a number is greater than or equal to it, and a receiver whose
  name, trimmed and upper-cased, is one of the upper-cased escrow names: the Telebirr
  endpoint accepts exactly the name 'Kaleb Mate Megane', and the bot's CBE validation
  accepts exactly the price as amount. A lower amount or another receiver is answered
  \<open>PaymentMismatch\<close>, and the bot's handler then leaves the store as it is.
\<close>

lemma verify_payment_numeric:
  "(verify_payment api apiKey reference amt = Inr d \<longrightarrow>
      (\<exists>e. amt = Some e \<and> \<not> js_lt (settledAmount d) (Num e) \<and>
            (\<forall>s. settledAmount d = Num s \<longrightarrow> e \<le> s)) \<and>
      (\<exists>name \<in> set validReceivers.
          toUpperCase upper name = toUpperCase upper (trim (creditedPartyName d)))) \<and>
   (api reference = Some r \<and> success r \<and> reference \<noteq> [] \<and> apiKey \<and> x \<noteq> 0 \<and>
      (js_lt (settledAmount (data r)) (Num x) \<or>
       \<not> (\<exists>name \<in> set validReceivers.
            toUpperCase upper name = toUpperCase upper (trim (creditedPartyName (data r))))) \<longrightarrow>
      verify_payment api apiKey reference (Some x) = Inl PaymentMismatch) \<and>
   (cbe_validate upper c accountPrice = Inr a \<longrightarrow>
      cbe_amount c = Some a \<and> accountPrice = Some a \<and>
      (\<exists>name \<in> set validReceivers. toUpperCase upper name = toUpperCase upper (trim (receiver c)))) \<and>
   ((\<exists>paid p. cbe_amount c = Some paid \<and> accountPrice = Some p \<and> paid < p) \<or>
    \<not> (\<exists>name \<in> set validReceivers. toUpperCase upper name = toUpperCase upper (trim (receiver c))) \<longrightarrow>
      cbe_validate upper c accountPrice = Inl PaymentMismatch) \<and>
   (verify_payment api apiKey (trim msg) (map_option of_int (pendingAccountPrice s)) = Inl PaymentMismatch \<longrightarrow>
      snd (snd (on_text api apiKey st s tg msg)) = st) \<and>
   (cbe_success v \<and> cbe_validate upper (cbe_data v) (pendingAccountPrice s) = Inl PaymentMismatch \<longrightarrow>
      snd (snd (on_photo upper (Some v) st s tg)) = st)"
proof -
  have p1: "verify_payment api apiKey reference amt = Inr d \<longrightarrow>
      (\<exists>e. amt = Some e \<and> \<not> js_lt (settledAmount d) (Num e) \<and>
            (\<forall>s. settledAmount d = Num s \<longrightarrow> e \<le> s)) \<and>
      (\<exists>name \<in> set validReceivers.
          toUpperCase upper name = toUpperCase upper (trim (creditedPartyName d)))"
  proof
    assume ok: "verify_payment api apiKey reference amt = Inr d"
    from verify_payment_success [OF ok] obtain e where
      e: "amt = Some e" "\<not> js_lt (settledAmount d) (Num e)"
         "creditedPartyName d = js ''Kaleb Mate Megane''"
      by blast
    have "\<forall>s. settledAmount d = Num s \<longrightarrow> e \<le> s"
      using e(2) by auto
    with e have amount: "\<exists>e. amt = Some e \<and> \<not> js_lt (settledAmount d) (Num e) \<and>
            (\<forall>s. settledAmount d = Num s \<longrightarrow> e \<le> s)"
      by blast
    have "\<exists>name \<in> set validReceivers.
            toUpperCase upper name = toUpperCase upper (trim (creditedPartyName d))"
      using telebirr_receiver_valid [of upper] e(3) by (simp only: isValidReceiver_iff)
    with amount show "(\<exists>e. amt = Some e \<and> \<not> js_lt (settledAmount d) (Num e) \<and>
            (\<forall>s. settledAmount d = Num s \<longrightarrow> e \<le> s)) \<and>
      (\<exists>name \<in> set validReceivers.
          toUpperCase upper name = toUpperCase upper (trim (creditedPartyName d)))"
      by (rule conjI)
  qed
  have p2: "api reference = Some r \<and> success r \<and> reference \<noteq> [] \<and> apiKey \<and> x \<noteq> 0 \<and>
      (js_lt (settledAmount (data r)) (Num x) \<or>
       \<not> (\<exists>name \<in> set validReceivers.
            toUpperCase upper name = toUpperCase upper (trim (creditedPartyName (data r))))) \<longrightarrow>
      verify_payment api apiKey reference (Some x) = Inl PaymentMismatch"
  proof
    assume h: "api reference = Some r \<and> success r \<and> reference \<noteq> [] \<and> apiKey \<and> x \<noteq> 0 \<and>
      (js_lt (settledAmount (data r)) (Num x) \<or>
       \<not> (\<exists>name \<in> set validReceivers.
            toUpperCase upper name = toUpperCase upper (trim (creditedPartyName (data r)))))"
    then have "js_lt (settledAmount (data r)) (Num x) \<or> \<not> isValidReceiver upper (creditedPartyName (data r))"
      by (simp only: isValidReceiver_iff)
    with h show "verify_payment api apiKey reference (Some x) = Inl PaymentMismatch"
      by (intro verify_payment_mismatch [of api reference r _ _ upper]) simp_all
  qed
  have p3: "cbe_validate upper c accountPrice = Inr a \<longrightarrow>
      cbe_amount c = Some a \<and> accountPrice = Some a \<and>
      (\<exists>name \<in> set validReceivers. toUpperCase upper name = toUpperCase upper (trim (receiver c)))"
  proof
    assume ok: "cbe_validate upper c accountPrice = Inr a"
    from cbe_validate_success [OF ok]
    show "cbe_amount c = Some a \<and> accountPrice = Some a \<and>
      (\<exists>name \<in> set validReceivers. toUpperCase upper name = toUpperCase upper (trim (receiver c)))"
      by (simp only: isValidReceiver_iff)
  qed
  have p4: "(\<exists>paid p. cbe_amount c = Some paid \<and> accountPrice = Some p \<and> paid < p) \<or>
    \<not> (\<exists>name \<in> set validReceivers. toUpperCase upper name = toUpperCase upper (trim (receiver c))) \<longrightarrow>
      cbe_validate upper c accountPrice = Inl PaymentMismatch"
  proof
    assume "(\<exists>paid p. cbe_amount c = Some paid \<and> accountPrice = Some p \<and> paid < p) \<or>
      \<not> (\<exists>name \<in> set validReceivers. toUpperCase upper name = toUpperCase upper (trim (receiver c)))"
    then have "\<not> isValidReceiver upper (receiver c) \<or> cbe_amount c = None \<or> cbe_amount c \<noteq> accountPrice"
      unfolding isValidReceiver_iff by auto
    then show "cbe_validate upper c accountPrice = Inl PaymentMismatch"
      by (rule cbe_validate_mismatch)
  qed
  have p5: "verify_payment api apiKey (trim msg) (map_option of_int (pendingAccountPrice s)) = Inl PaymentMismatch \<longrightarrow>
      snd (snd (on_text api apiKey st s tg msg)) = st"
    using on_text_no_order by blast
  have p6: "cbe_success v \<and> cbe_validate upper (cbe_data v) (pendingAccountPrice s) = Inl PaymentMismatch \<longrightarrow>
      snd (snd (on_photo upper (Some v) st s tg)) = st"
    using on_photo_no_order [where verifyRes = "Some v" and e = PaymentMismatch and upper = upper]
    by blast
  from p1 p2 p3 p4 p5 p6 show ?thesis
    by (intro conjI)
qed

lemmas demo_payment_defs =
  demo_api_def demo_cbe_def demo_session_telebirr_def demo_session_cbe_def

lemma demo_createOrder_eval:
  "createOrder demo_reserved 2 10 (Some 500) (Some (js ''FT1'')) =
     (Inr (Some \<lparr>ord_id = 20, buyer_id = 2, account_id = 10, amount = 500,
                  ord_status = ''pending'', receipt_no = Some (js ''FT1'')\<rparr>), demo_ordered)"
  by (simp add: demo_ordered_eval demo_reserved_eval op_defs store_defs demo_defs)

lemma demo_buyer_by_telegram: "user_by_telegram demo_reserved ''7002'' = Some demo_buyer_a"
  by (simp add: user_by_telegram_def demo_reserved_eval first_row_def demo_defs)

lemma demo_trim:
  "trim (js ''FT2'') = js ''FT2''" "trim (js '' FT1 '') = js ''FT1''" "trim (js ''FT4'') = js ''FT4''"
  by (simp_all add: string_defs)

lemma demo_receipts:
  "verify_payment demo_api True (js ''FT1'') (Some 500) =
     Inr \<lparr>creditedPartyName = js ''Kaleb Mate Megane'', settledAmount = Num 500\<rparr>"
  "verify_payment demo_api True (js ''FT2'') (Some 500) = Inl PaymentMismatch"
  "verify_payment demo_api True (js ''FT3'') (Some 500) = Inl PaymentMismatch"
  by (simp_all add: verify_payment_def demo_api_def js_eq_iff js_Nil_iff)

text \<open>
  On the example: receipt FT1 pays the price and is accepted, FT2 pays half of it and
  FT3 pays somebody else; the CBE receipt names the escrow account in lower case with
  white space around it and pays 500, which is accepted for the price 500 and refused
  for the price 600. After a refusal the ledger is as before; after FT1 it has the
  order.
\<close>

lemma verify_payment_numeric_demo:
  "verify_payment demo_api True (js ''FT1'') (Some 500) =
     Inr \<lparr>creditedPartyName = js ''Kaleb Mate Megane'', settledAmount = Num 500\<rparr> \<and>
   verify_payment demo_api True (js ''FT2'') (Some 500) = Inl PaymentMismatch \<and>
   verify_payment demo_api True (js ''FT3'') (Some 500) = Inl PaymentMismatch \<and>
   cbe_validate upper (cbe_data demo_cbe) (Some 500) = Inr 500 \<and>
   cbe_validate upper (cbe_data demo_cbe) (Some 600) = Inl PaymentMismatch \<and>
   snd (snd (on_text demo_api True demo_reserved demo_session_telebirr ''7002'' (js ''FT2''))) = demo_reserved \<and>
   snd (snd (on_photo upper (Some demo_cbe) demo_reserved demo_session_cbe ''7002'')) = demo_reserved \<and>
   snd (snd (on_text demo_api True demo_reserved demo_session_telebirr ''7002'' (js '' FT1 ''))) = demo_ordered"
proof -
  have cbe_ok: "cbe_validate upper (cbe_data demo_cbe) (Some 500) = Inr 500"
    by (simp add: cbe_validate_def demo_cbe_def string_defs)
  have cbe_low: "cbe_validate upper (cbe_data demo_cbe) (Some 600) = Inl PaymentMismatch"
    using verify_payment_numeric [where c = "cbe_data demo_cbe" and accountPrice = "Some 600"
        and upper = upper]
    by (simp add: demo_cbe_def)
  have "verify_payment demo_api True (trim (js ''FT2''))
          (map_option of_int (pendingAccountPrice demo_session_telebirr)) = Inl PaymentMismatch"
    by (simp add: demo_trim demo_receipts demo_session_telebirr_def)
  then have no_order:
    "snd (snd (on_text demo_api True demo_reserved demo_session_telebirr ''7002'' (js ''FT2''))) = demo_reserved"
    by (rule on_text_no_order)
  have "Some demo_cbe = None \<or> (\<exists>v. Some demo_cbe = Some v \<and>
             (\<not> cbe_success v \<or>
              cbe_validate upper (cbe_data v) (pendingAccountPrice demo_session_cbe) = Inl PaymentMismatch))"
    using cbe_low by (simp add: demo_session_cbe_def)
  then have no_order_cbe:
    "snd (snd (on_photo upper (Some demo_cbe) demo_reserved demo_session_cbe ''7002'')) = demo_reserved"
    by (rule on_photo_no_order)
  have u: "user_id demo_buyer_a = 2"
    by (simp add: demo_defs)
  have nonempty: "js '' FT1 '' \<noteq> []"
    by (simp add: js_Nil_iff)
  have created:
    "snd (snd (on_text demo_api True demo_reserved demo_session_telebirr ''7002'' (js '' FT1 ''))) = demo_ordered"
    by (simp add: on_text_def Let_def demo_trim demo_receipts nonempty u demo_buyer_by_telegram
          demo_createOrder_eval demo_session_telebirr_def)
  from demo_receipts cbe_ok cbe_low no_order no_order_cbe created show ?thesis
    by (intro conjI)
qed

text \<open>
  Claim C3. The verification endpoint does not hold the amount condition for a receipt
  whose settled amount has no digits: \<^verbatim>\<open>parseFloat\<close> gives \<open>NaN\<close>, the comparison
  \<^verbatim>\<open>settledAmount < expectedAmount\<close> is false, and the handler answers success. Whatever
  the expected amount is, a receipt that the verifier reports as credited to the escrow
  name with such an amount is accepted, although its settled amount is no number
  greater than or equal to the expected amount.
\<close>

theorem verify_payment_accepts_nan:
  "api reference = Some r \<and> success r \<and> creditedPartyName (data r) = js ''Kaleb Mate Megane'' \<and>
   settledAmount (data r) = NaN \<and> reference \<noteq> [] \<and> e \<noteq> 0 \<and> apiKey \<longrightarrow>
     verify_payment api apiKey reference (Some e) = Inr (data r) \<and>
     \<not> (\<exists>s. settledAmount (data r) = Num s \<and> e \<le> s)"
  by (simp add: verify_payment_def)

text \<open>
  On the example: the receipt FT4 is accepted for the expected amount 500, and the bot
  creates the order for account 10 from it.
\<close>

theorem verify_payment_accepts_nan_witness:
  "verify_payment demo_api True (js ''FT4'') (Some 500) =
     Inr \<lparr>creditedPartyName = js ''Kaleb Mate Megane'', settledAmount = NaN\<rparr> \<and>
   fst (on_text demo_api True demo_reserved demo_session_telebirr ''7002'' (js ''FT4'')) =
     OrderCreated (Some \<lparr>ord_id = 20, buyer_id = 2, account_id = 10, amount = 500,
                          ord_status = ''pending'', receipt_no = Some (js ''FT4'')\<rparr>) \<and>
   orders (snd (snd (on_text demo_api True demo_reserved demo_session_telebirr ''7002'' (js ''FT4'')))) =
     [\<lparr>ord_id = 20, buyer_id = 2, account_id = 10, amount = 500,
       ord_status = ''pending'', receipt_no = Some (js ''FT4'')\<rparr>]"
proof -
  have nonempty: "js ''FT4'' \<noteq> []"
    by (simp add: js_Nil_iff)
  have api: "demo_api (js ''FT4'') =
     Some \<lparr>success = True,
           data = \<lparr>creditedPartyName = js ''Kaleb Mate Megane'', settledAmount = NaN\<rparr>\<rparr>"
    by (simp add: demo_api_def js_eq_iff)
  have ok: "verify_payment demo_api True (js ''FT4'') (Some 500) =
     Inr \<lparr>creditedPartyName = js ''Kaleb Mate Megane'', settledAmount = NaN\<rparr>"
    using verify_payment_accepts_nan [where api = demo_api and reference = "js ''FT4''" and e = 500
        and apiKey = True and r = "\<lparr>success = True,
           data = \<lparr>creditedPartyName = js ''Kaleb Mate Megane'', settledAmount = NaN\<rparr>\<rparr>"]
      api nonempty
    by simp
  have u: "user_id demo_buyer_a = 2"
    by (simp add: demo_defs)
  have c: "createOrder demo_reserved 2 10 (Some 500) (Some (js ''FT4'')) =
     (Inr (Some \<lparr>ord_id = 20, buyer_id = 2, account_id = 10, amount = 500,
                  ord_status = ''pending'', receipt_no = Some (js ''FT4'')\<rparr>),
      demo_reserved\<lparr>orders := [\<lparr>ord_id = 20, buyer_id = 2, account_id = 10, amount = 500,
                  ord_status = ''pending'', receipt_no = Some (js ''FT4'')\<rparr>], next_id := 21\<rparr>)"
    by (simp add: demo_reserved_eval op_defs store_defs demo_defs)
  have run: "on_text demo_api True demo_reserved demo_session_telebirr ''7002'' (js ''FT4'') =
     (OrderCreated (Some \<lparr>ord_id = 20, buyer_id = 2, account_id = 10, amount = 500,
                          ord_status = ''pending'', receipt_no = Some (js ''FT4'')\<rparr>),
      demo_session_telebirr\<lparr>pendingAccountId := None, pendingAccountPrice := None\<rparr>,
      demo_reserved\<lparr>orders := [\<lparr>ord_id = 20, buyer_id = 2, account_id = 10, amount = 500,
                  ord_status = ''pending'', receipt_no = Some (js ''FT4'')\<rparr>], next_id := 21\<rparr>)"
    by (simp add: on_text_def Let_def demo_trim ok nonempty u demo_buyer_by_telegram c
          demo_session_telebirr_def)
  from ok show ?thesis
    by (simp add: run)
qed


lemmas complete_defs =
  transfer_complete_def transfer_complete_read_def transfer_complete_write_def
  transfer_complete_interleaved_def get_order_def get_user_def put_user_balance_def balance_of_def

lemma demo_two_orders_eval:
  "demo_two_orders =
     \<lparr>users = [demo_seller, demo_buyer_a, demo_buyer_b],
      accounts = [demo_account\<lparr>acc_status := Pending\<rparr>, demo_account2\<lparr>acc_status := Pending\<rparr>],
      orders = [\<lparr>ord_id = 20, buyer_id = 2, account_id = 10, amount = 500,
                 ord_status = ''pending'', receipt_no = Some (js ''FT1'')\<rparr>,
                \<lparr>ord_id = 21, buyer_id = 3, account_id = 11, amount = 300,
                 ord_status = ''pending'', receipt_no = Some (js ''FT5'')\<rparr>],
      transfers = [], withdrawals = [],
      timers = [\<lparr>delay_ms = 600000, timer_task = ReleaseReservation 10\<rparr>,
                \<lparr>delay_ms = 600000, timer_task = ReleaseReservation 11\<rparr>], next_id = 22\<rparr>"
  by (simp add: demo_two_orders_def demo_ordered_eval op_defs store_defs demo_defs)

lemma demo_completed_eval:
  "demo_completed =
     \<lparr>users = [demo_seller, demo_buyer_a, demo_buyer_b],
      accounts = [demo_account\<lparr>acc_status := Sold\<rparr>, demo_account2],
      orders = [\<lparr>ord_id = 20, buyer_id = 2, account_id = 10, amount = 500,
                 ord_status = ''completed'', receipt_no = Some (js ''FT1'')\<rparr>],
      transfers = [], withdrawals = [],
      timers = [\<lparr>delay_ms = 600000, timer_task = ReleaseReservation 10\<rparr>,
                \<lparr>delay_ms = 5000, timer_task = CleanupCompletedOrder 10\<rparr>], next_id = 21\<rparr>"
  by (simp add: demo_completed_def demo_ordered_eval op_defs store_defs demo_defs)

lemma demo_second_order_left_eval:
  "demo_second_order_left =
     \<lparr>users = [demo_seller, demo_buyer_a, demo_buyer_b],
      accounts = [demo_account\<lparr>acc_status := Available\<rparr>, demo_account2],
      orders = [\<lparr>ord_id = 21, buyer_id = 3, account_id = 10, amount = 500,
                 ord_status = ''pending'', receipt_no = Some (js ''FT6'')\<rparr>],
      transfers = [], withdrawals = [],
      timers = [\<lparr>delay_ms = 600000, timer_task = ReleaseReservation 10\<rparr>], next_id = 22\<rparr>"
  by (simp add: demo_second_order_left_def demo_ordered_eval op_defs store_defs demo_defs)

section \<open>Completion and the seller's credit\<close>

text \<open>
  Against claim C4 as stated: the seller (balance 0) has two pending orders, for
  accounts priced 500 and 300. Completed one after the other, the two runs of the bot's
  action leave a balance of 800. When the second run reads the balance before the first
  run has written it, both orders are completed, both accounts are sold, and the
  balance is 300: the credit of 500 is lost.
\<close>

theorem transfer_complete_interleaved_counterexample:
  "balance_of demo_two_orders 1 = Some (Some 0) \<and>
   balance_of (snd (transfer_complete (snd (transfer_complete demo_two_orders 20)) 21)) 1
     = Some (Some 800) \<and>
   balance_of (transfer_complete_interleaved demo_two_orders 20 21) 1 = Some (Some 300) \<and>
   map ord_status (orders (transfer_complete_interleaved demo_two_orders 20 21))
     = [''completed'', ''completed''] \<and>
   map acc_status (accounts (transfer_complete_interleaved demo_two_orders 20 21)) = [Sold, Sold]"
  by (simp add: demo_two_orders_eval complete_defs op_defs store_defs demo_defs)

section \<open>Status transitions of an account\<close>

text \<open>
  Against claim C5 as stated: cancelling order 20 after it has been completed (the order
  is still there until the clean-up timer runs) moves account 10 from 'sold' to
  'available'. And with two orders on account 10, cancelling the first and completing
  the second moves the account from 'available' to 'sold'.
\<close>

theorem status_graph_counterexample:
  "status_of demo_ordered 10 = Some Pending \<and>
   status_of demo_completed 10 = Some Sold \<and>
   fst (cancelOrder demo_completed 20) =
     Inr (Some \<lparr>ord_id = 20, buyer_id = 2, account_id = 10, amount = 500,
                 ord_status = ''completed'', receipt_no = Some (js ''FT1'')\<rparr>) \<and>
   status_of (snd (cancelOrder demo_completed 20)) 10 = Some Available \<and>
   status_of demo_second_order_left 10 = Some Available \<and>
   status_of (snd (update_order demo_second_order_left 21 ''completed'')) 10 = Some Sold"
  by (simp add: demo_completed_eval demo_second_order_left_eval demo_ordered_eval
        op_defs store_defs demo_defs)


section \<open>Cancellation\<close>

lemma orders_by_id_after_delete:
  "filter (\<lambda>r. ord_id r = oid) (filter (\<lambda>r. ord_id r \<noteq> oid) rows) = []"
  by (induction rows) auto

lemma set_status_all:
  "\<forall>a \<in> set (filter (\<lambda>a. acc_id a = aid) (set_status s aid rows)). acc_status a = s"
  by (simp add: account_by_id_set_status)

text \<open>
  Claim C6. When no order has the identifier, the call fails with \<open>OrderNotFound\<close> and
  the store is unchanged. For a pending order (that no transfer row refers to) the call
  returns the order, sets the status of the order's account to 'available', deletes
  the order and touches nothing else, in one step.
\<close>

theorem cancelOrder_contract:
  "(filter (\<lambda>r. ord_id r = oid) (orders st) = [] \<longrightarrow>
      cancelOrder st oid = (Inl OrderNotFound, st)) \<and>
   (filter (\<lambda>r. ord_id r = oid) (orders st) = [ord] \<and> ord_status ord = ''pending'' \<and>
    \<not> referenced_by_transfer st ord \<longrightarrow>
      cancelOrder st oid =
        (Inr (Some ord),
         st\<lparr>accounts := set_status Available (account_id ord) (accounts st),
            orders := filter (\<lambda>r. ord_id r \<noteq> oid) (orders st)\<rparr>) \<and>
      (\<forall>a \<in> set (account_by_id (snd (cancelOrder st oid)) (account_id ord)). acc_status a = Available) \<and>
      filter (\<lambda>r. ord_id r = oid) (orders (snd (cancelOrder st oid))) = [])"
proof -
  have p1: "filter (\<lambda>r. ord_id r = oid) (orders st) = [] \<longrightarrow>
      cancelOrder st oid = (Inl OrderNotFound, st)"
    by (simp add: cancelOrder_def)
  have p2: "filter (\<lambda>r. ord_id r = oid) (orders st) = [ord] \<and> ord_status ord = ''pending'' \<and>
    \<not> referenced_by_transfer st ord \<longrightarrow>
      cancelOrder st oid =
        (Inr (Some ord),
         st\<lparr>accounts := set_status Available (account_id ord) (accounts st),
            orders := filter (\<lambda>r. ord_id r \<noteq> oid) (orders st)\<rparr>) \<and>
      (\<forall>a \<in> set (account_by_id (snd (cancelOrder st oid)) (account_id ord)). acc_status a = Available) \<and>
      filter (\<lambda>r. ord_id r = oid) (orders (snd (cancelOrder st oid))) = []"
  proof
    assume h: "filter (\<lambda>r. ord_id r = oid) (orders st) = [ord] \<and> ord_status ord = ''pending'' \<and>
      \<not> referenced_by_transfer st ord"
    then have eq: "cancelOrder st oid =
        (Inr (Some ord),
         st\<lparr>accounts := set_status Available (account_id ord) (accounts st),
            orders := filter (\<lambda>r. ord_id r \<noteq> oid) (orders st)\<rparr>)"
      by (simp add: cancelOrder_def Let_def first_row_def)
    have a: "\<forall>a \<in> set (account_by_id (snd (cancelOrder st oid)) (account_id ord)). acc_status a = Available"
      using set_status_all [of "account_id ord" Available "accounts st"]
      by (simp add: eq account_by_id_def)
    have d: "filter (\<lambda>r. ord_id r = oid) (orders (snd (cancelOrder st oid))) = []"
      by (simp add: eq orders_by_id_after_delete)
    from eq a d show "cancelOrder st oid =
        (Inr (Some ord),
         st\<lparr>accounts := set_status Available (account_id ord) (accounts st),
            orders := filter (\<lambda>r. ord_id r \<noteq> oid) (orders st)\<rparr>) \<and>
      (\<forall>a \<in> set (account_by_id (snd (cancelOrder st oid)) (account_id ord)). acc_status a = Available) \<and>
      filter (\<lambda>r. ord_id r = oid) (orders (snd (cancelOrder st oid))) = []"
      by (intro conjI)
  qed
  from p1 p2 show ?thesis by (rule conjI)
qed

theorem cancelOrder_contract_witness:
  "cancelOrder demo_reserved 20 = (Inl OrderNotFound, demo_reserved) \<and>
   cancelOrder demo_ordered 20 =
     (Inr (Some \<lparr>ord_id = 20, buyer_id = 2, account_id = 10, amount = 500,
                  ord_status = ''pending'', receipt_no = Some (js ''FT1'')\<rparr>),
      demo_store\<lparr>timers := [\<lparr>delay_ms = 600000, timer_task = ReleaseReservation 10\<rparr>],
                 next_id := 21\<rparr>) \<and>
   status_of (snd (cancelOrder demo_ordered 20)) 10 = Some Available \<and>
   orders (snd (cancelOrder demo_ordered 20)) = []"
proof -
  let ?ord = "\<lparr>ord_id = 20, buyer_id = 2, account_id = 10, amount = 500,
                  ord_status = ''pending'', receipt_no = Some (js ''FT1'')\<rparr>"
  have none: "filter (\<lambda>r. ord_id r = 20) (orders demo_reserved) = []"
    by (simp add: demo_reserved_eval)
  have one: "filter (\<lambda>r. ord_id r = 20) (orders demo_ordered) = [?ord] \<and> ord_status ?ord = ''pending'' \<and>
    \<not> referenced_by_transfer demo_ordered ?ord"
    by (simp add: demo_ordered_eval referenced_by_transfer_def)
  have a: "cancelOrder demo_reserved 20 = (Inl OrderNotFound, demo_reserved)"
    using cancelOrder_contract [of 20 demo_reserved] none by blast
  have b: "cancelOrder demo_ordered 20 =
        (Inr (Some ?ord),
         demo_ordered\<lparr>accounts := set_status Available (account_id ?ord) (accounts demo_ordered),
            orders := filter (\<lambda>r. ord_id r \<noteq> 20) (orders demo_ordered)\<rparr>)"
    using cancelOrder_contract [of 20 demo_ordered ?ord] one by blast
  have c: "demo_ordered\<lparr>accounts := set_status Available (account_id ?ord) (accounts demo_ordered),
            orders := filter (\<lambda>r. ord_id r \<noteq> 20) (orders demo_ordered)\<rparr> =
      demo_store\<lparr>timers := [\<lparr>delay_ms = 600000, timer_task = ReleaseReservation 10\<rparr>],
                 next_id := 21\<rparr>"
    by (simp add: demo_ordered_eval store_defs demo_defs)
  have d: "status_of (demo_store\<lparr>timers := [\<lparr>delay_ms = 600000, timer_task = ReleaseReservation 10\<rparr>],
                 next_id := 21\<rparr>) 10 = Some Available"
    by (simp add: store_defs demo_defs)
  have e: "orders (demo_store\<lparr>timers := [\<lparr>delay_ms = 600000, timer_task = ReleaseReservation 10\<rparr>],
                 next_id := 21\<rparr>) = []"
    by (simp add: demo_defs)
  show ?thesis
    using a b c d e by simp
qed


section \<open>Account deletion\<close>

lemma account_by_id_after_delete:
  "filter (\<lambda>a. acc_id a = aid) (filter (\<lambda>a. acc_id a \<noteq> aid) rows) = []"
  by (induction rows) auto









section \<open>Withdrawals\<close>

lemma first_user_after_balance_update:
  "first_row (filter (\<lambda>u. user_id u = uid) (users st)) = Some u \<Longrightarrow>
   first_row (filter (\<lambda>u. user_id u = uid)
       (map (\<lambda>r. if user_id r = uid then r\<lparr>balance := b\<rparr> else r) (users st)))
     = Some (u\<lparr>balance := b\<rparr>)"
proof (induction "users st" arbitrary: st)
  case Nil
  then show ?case by (simp add: first_row_def)
next
  case (Cons x xs)
  from Cons(2) [symmetric] Cons(3) show ?case
    using Cons(1) [of "st\<lparr>users := xs\<rparr>"]
    by (auto simp: first_row_def split: if_splits)
qed

lemma other_user_after_balance_update:
  "other \<noteq> uid \<Longrightarrow>
   filter (\<lambda>u. user_id u = other)
       (map (\<lambda>r. if user_id r = uid then r\<lparr>balance := b\<rparr> else r) rows)
     = filter (\<lambda>u. user_id u = other) rows"
  by (induction rows) auto

lemma withdraw_failure_keeps_store:
  "fst (withdraw st uid amt) = Inl e \<Longrightarrow> snd (withdraw st uid amt) = st"
  by (auto simp: withdraw_def Let_def split: option.splits list.splits if_splits)

lemma withdraw_insufficient:
  "get_user st uid = Some u \<Longrightarrow> to_number (balance u) < v \<Longrightarrow>
     withdraw st (Some uid) (Some v) = (Inl InsufficientBalance, st)"
  by (auto simp: withdraw_def get_user_def first_row_def split: list.splits)

lemma withdraw_success:
  assumes "get_user st uid = Some u" "v \<le> to_number (balance u)"
    "int4_ok v" "int4_ok (to_number (balance u) - v)"
  shows "withdraw st (Some uid) (Some v) =
     (Inr (Some \<lparr>wd_id = next_id st, wd_user_id = uid, wd_amount = v,
                  wd_status = ''pending'', wd_reason = ''order_refund''\<rparr>),
      st\<lparr>users := map (\<lambda>r. if user_id r = uid then r\<lparr>balance := Some (to_number (balance u) - v)\<rparr> else r)
                    (users st),
         withdrawals := withdrawals st @
           [\<lparr>wd_id = next_id st, wd_user_id = uid, wd_amount = v,
             wd_status = ''pending'', wd_reason = ''order_refund''\<rparr>],
         next_id := Suc (next_id st)\<rparr>)"
  using assms
  by (auto simp: withdraw_def get_user_def first_row_def Let_def split: list.splits)

lemma withdraw_only_if_covered:
  assumes "fst (withdraw st (Some uid) (Some v)) = Inr w"
  shows "\<exists>u. get_user st uid = Some u \<and> v \<le> to_number (balance u) \<and>
             int4_ok v \<and> int4_ok (to_number (balance u) - v)"
  using assms
  by (auto simp: withdraw_def get_user_def first_row_def Let_def split: list.splits if_splits)

text \<open>
  Claim C9. When the user's balance is below the amount, the withdrawal fails with
  \<open>InsufficientBalance\<close>; every failure leaves the users and the withdrawals as they
  were. A withdrawal succeeds only when the balance covers the amount; then, in the one
  step, the user's balance is lowered by exactly the amount and is not negative, one
  withdrawal row with that amount and status 'pending' is added, and no other user's
  balance changes.
\<close>

theorem withdraw_contract:
  "(get_user st uid = Some u \<and> to_number (balance u) < v \<longrightarrow>
      withdraw st (Some uid) (Some v) = (Inl InsufficientBalance, st)) \<and>
   (\<forall>e. fst (withdraw st uid_q amt_q) = Inl e \<longrightarrow> snd (withdraw st uid_q amt_q) = st) \<and>
   (\<forall>w. fst (withdraw st (Some uid) (Some v)) = Inr w \<longrightarrow>
      (\<exists>u. get_user st uid = Some u \<and> v \<le> to_number (balance u) \<and>
        w = Some \<lparr>wd_id = next_id st, wd_user_id = uid, wd_amount = v,
                   wd_status = ''pending'', wd_reason = ''order_refund''\<rparr> \<and>
        withdrawals (snd (withdraw st (Some uid) (Some v))) =
          withdrawals st @ [\<lparr>wd_id = next_id st, wd_user_id = uid, wd_amount = v,
                             wd_status = ''pending'', wd_reason = ''order_refund''\<rparr>] \<and>
        balance_of (snd (withdraw st (Some uid) (Some v))) uid = Some (Some (to_number (balance u) - v)) \<and>
        0 \<le> to_number (balance u) - v \<and>
        (\<forall>other. other \<noteq> uid \<longrightarrow>
           balance_of (snd (withdraw st (Some uid) (Some v))) other = balance_of st other))) \<and>
   (get_user st uid = Some u \<and> v \<le> to_number (balance u) \<and> int4_ok v \<and>
    int4_ok (to_number (balance u) - v) \<longrightarrow>
      (\<exists>w. fst (withdraw st (Some uid) (Some v)) = Inr w))"
proof -
  have p1: "get_user st uid = Some u \<and> to_number (balance u) < v \<longrightarrow>
      withdraw st (Some uid) (Some v) = (Inl InsufficientBalance, st)"
    using withdraw_insufficient by blast
  have p2: "\<forall>e. fst (withdraw st uid_q amt_q) = Inl e \<longrightarrow> snd (withdraw st uid_q amt_q) = st"
    using withdraw_failure_keeps_store by blast
  have p3: "\<forall>w. fst (withdraw st (Some uid) (Some v)) = Inr w \<longrightarrow>
      (\<exists>u. get_user st uid = Some u \<and> v \<le> to_number (balance u) \<and>
        w = Some \<lparr>wd_id = next_id st, wd_user_id = uid, wd_amount = v,
                   wd_status = ''pending'', wd_reason = ''order_refund''\<rparr> \<and>
        withdrawals (snd (withdraw st (Some uid) (Some v))) =
          withdrawals st @ [\<lparr>wd_id = next_id st, wd_user_id = uid, wd_amount = v,
                             wd_status = ''pending'', wd_reason = ''order_refund''\<rparr>] \<and>
        balance_of (snd (withdraw st (Some uid) (Some v))) uid = Some (Some (to_number (balance u) - v)) \<and>
        0 \<le> to_number (balance u) - v \<and>
        (\<forall>other. other \<noteq> uid \<longrightarrow>
           balance_of (snd (withdraw st (Some uid) (Some v))) other = balance_of st other))"
  proof (intro allI impI)
    fix w assume ok: "fst (withdraw st (Some uid) (Some v)) = Inr w"
    from withdraw_only_if_covered [OF ok] obtain u where
      u: "get_user st uid = Some u" "v \<le> to_number (balance u)"
         "int4_ok v" "int4_ok (to_number (balance u) - v)"
      by blast
    note eq = withdraw_success [OF u]
    have w: "w = Some \<lparr>wd_id = next_id st, wd_user_id = uid, wd_amount = v,
                   wd_status = ''pending'', wd_reason = ''order_refund''\<rparr>"
      using ok by (simp add: eq)
    have ws: "withdrawals (snd (withdraw st (Some uid) (Some v))) =
          withdrawals st @ [\<lparr>wd_id = next_id st, wd_user_id = uid, wd_amount = v,
                             wd_status = ''pending'', wd_reason = ''order_refund''\<rparr>]"
      by (simp add: eq)
    have b: "balance_of (snd (withdraw st (Some uid) (Some v))) uid = Some (Some (to_number (balance u) - v))"
      using u(1) first_user_after_balance_update [of uid st u "Some (to_number (balance u) - v)"]
      by (simp add: eq balance_of_def get_user_def)
    have nn: "0 \<le> to_number (balance u) - v"
      using u(2) by simp
    have fr: "\<forall>other. other \<noteq> uid \<longrightarrow>
           balance_of (snd (withdraw st (Some uid) (Some v))) other = balance_of st other"
      by (simp add: eq balance_of_def get_user_def other_user_after_balance_update)
    from u(1) u(2) w ws b nn fr
    show "\<exists>u. get_user st uid = Some u \<and> v \<le> to_number (balance u) \<and>
        w = Some \<lparr>wd_id = next_id st, wd_user_id = uid, wd_amount = v,
                   wd_status = ''pending'', wd_reason = ''order_refund''\<rparr> \<and>
        withdrawals (snd (withdraw st (Some uid) (Some v))) =
          withdrawals st @ [\<lparr>wd_id = next_id st, wd_user_id = uid, wd_amount = v,
                             wd_status = ''pending'', wd_reason = ''order_refund''\<rparr>] \<and>
        balance_of (snd (withdraw st (Some uid) (Some v))) uid = Some (Some (to_number (balance u) - v)) \<and>
        0 \<le> to_number (balance u) - v \<and>
        (\<forall>other. other \<noteq> uid \<longrightarrow>
           balance_of (snd (withdraw st (Some uid) (Some v))) other = balance_of st other)"
      by (intro exI [of _ u] conjI)
  qed
  have p4: "get_user st uid = Some u \<and> v \<le> to_number (balance u) \<and> int4_ok v \<and>
    int4_ok (to_number (balance u) - v) \<longrightarrow>
      (\<exists>w. fst (withdraw st (Some uid) (Some v)) = Inr w)"
    using withdraw_success [of st uid u v] by auto
  from p1 p2 p3 p4 show ?thesis by (intro conjI)
qed

theorem withdraw_contract_witness:
  "withdraw demo_store (Some 3) (Some 100) = (Inl InsufficientBalance, demo_store) \<and>
   fst (withdraw demo_store (Some 3) (Some 50)) =
     Inr (Some \<lparr>wd_id = 20, wd_user_id = 3, wd_amount = 50,
                  wd_status = ''pending'', wd_reason = ''order_refund''\<rparr>) \<and>
   balance_of demo_store 3 = Some (Some 50) \<and>
   balance_of (snd (withdraw demo_store (Some 3) (Some 50))) 3 = Some (Some 0) \<and>
   balance_of (snd (withdraw demo_store (Some 3) (Some 50))) 1 = balance_of demo_store 1 \<and>
   withdrawals (snd (withdraw demo_store (Some 3) (Some 50))) =
     [\<lparr>wd_id = 20, wd_user_id = 3, wd_amount = 50,
       wd_status = ''pending'', wd_reason = ''order_refund''\<rparr>]"
proof -
  have u: "get_user demo_store 3 = Some demo_buyer_b"
    by (simp add: get_user_def first_row_def demo_defs)
  have bal: "to_number (balance demo_buyer_b) = 50"
    by (simp add: to_number_def demo_defs)
  have b0: "balance_of demo_store 3 = Some (Some 50)"
    by (simp add: balance_of_def u demo_buyer_b_def)
  have low: "withdraw demo_store (Some 3) (Some 100) = (Inl InsufficientBalance, demo_store)"
    using withdraw_contract [of demo_store 3 demo_buyer_b 100] u bal by simp
  have pre: "get_user demo_store 3 = Some demo_buyer_b \<and> 50 \<le> to_number (balance demo_buyer_b) \<and>
      int4_ok 50 \<and> int4_ok (to_number (balance demo_buyer_b) - 50)"
    by (simp add: u bal int4_ok_def)
  then obtain w where w: "fst (withdraw demo_store (Some 3) (Some 50)) = Inr w"
    using withdraw_contract [of demo_store 3 demo_buyer_b 50] by blast
  have rest: "w = Some \<lparr>wd_id = next_id demo_store, wd_user_id = 3, wd_amount = 50,
                   wd_status = ''pending'', wd_reason = ''order_refund''\<rparr> \<and>
        withdrawals (snd (withdraw demo_store (Some 3) (Some 50))) =
          withdrawals demo_store @ [\<lparr>wd_id = next_id demo_store, wd_user_id = 3, wd_amount = 50,
                             wd_status = ''pending'', wd_reason = ''order_refund''\<rparr>] \<and>
        balance_of (snd (withdraw demo_store (Some 3) (Some 50))) 3 = Some (Some (50 - 50)) \<and>
        balance_of (snd (withdraw demo_store (Some 3) (Some 50))) 1 = balance_of demo_store 1"
    using withdraw_contract [of demo_store 3 demo_buyer_b 50] w u bal by auto
  have ids: "next_id demo_store = 20" "withdrawals demo_store = []"
    by (simp_all add: demo_defs)
  show ?thesis
    using low b0 w rest by (simp add: ids)
qed


section \<open>Marketplace listing and search\<close>

lemma set_order_by: "set (order_by_created_desc_id rows) = set rows"
  by (simp add: order_by_created_desc_id_def)

lemma paginate_subset: "paginate rows lmt off = Inr page \<Longrightarrow> set page \<subseteq> set rows"
  by (auto simp: paginate_def Let_def split: if_splits option.splits
        dest: in_set_takeD in_set_dropD)

text \<open>
  A negative limit on the first page is answered, with every row: no LIMIT clause is
  written for it, and the offset is 0.
\<close>

lemma paginate_negative_limit: "l < 0 \<Longrightarrow> paginate rows (Some l) (Some 0) = Inr rows"
  by (simp add: paginate_def limit_clause_def offset_clause_def)

lemma search_conditions_status:
  "list_all (\<lambda>c. c a) (search_conditions lower ilike q) \<Longrightarrow> acc_status a = Available"
  by (simp add: search_conditions_def)

lemma list_accounts_result:
  assumes "list_accounts st page_q limit_q = Inr r"
  shows "set (listed r) \<subseteq> set (filter (\<lambda>a. acc_status a = Available) (accounts st)) \<and>
         totalCount (pages r) = int (length (filter (\<lambda>a. acc_status a = Available) (accounts st)))"
proof -
  from assms obtain lmt off result where
    pg: "paginate (order_by_created_desc_id (filter (\<lambda>a. acc_status a = Available) (accounts st)))
           lmt off = Inr result"
    and l: "listed r = result"
    and c: "totalCount (pages r) = int (length (filter (\<lambda>a. acc_status a = Available) (accounts st)))"
    by (auto simp: list_accounts_def Let_def split: sum.splits)
  from paginate_subset [OF pg] l c show ?thesis
    by (simp add: set_order_by)
qed

lemma search_accounts_result:
  assumes "search_accounts lower ilike st q = Inr r"
  shows "set (listed r) \<subseteq>
           set (filter (\<lambda>a. list_all (\<lambda>c. c a) (search_conditions lower ilike q)) (accounts st)) \<and>
         totalCount (pages r) =
           int (length (filter (\<lambda>a. list_all (\<lambda>c. c a) (search_conditions lower ilike q)) (accounts st)))"
proof -
  from assms obtain result where
    pg: "paginate (order_by_created_desc_id
            (filter (\<lambda>a. list_all (\<lambda>c. c a) (search_conditions lower ilike q)) (accounts st)))
           (search_limit q) (js_offset (search_page q) (search_limit q)) = Inr result"
    and l: "listed r = result"
    and c: "totalCount (pages r) =
           int (length (filter (\<lambda>a. list_all (\<lambda>c. c a) (search_conditions lower ilike q)) (accounts st)))"
    by (auto simp: search_accounts_def Let_def split: sum.splits)
  from paginate_subset [OF pg] l c show ?thesis
    by (simp add: set_order_by)
qed

lemma filter_conj_status:
  "filter (\<lambda>a. list_all (\<lambda>c. c a) (search_conditions lower ilike q)) rows =
   filter (\<lambda>a. acc_status a = Available \<and> list_all (\<lambda>c. c a) (search_conditions lower ilike q)) rows"
  by (rule filter_cong) (auto dest: search_conditions_status)

text \<open>
  Claim C10. Every account on a page returned by the listing or by the search is an
  account of the store with status 'available', so a pending or sold account is on no
  page, whatever the page and the limit of the request are. The total count of the
  listing is the number of available accounts, and the total count of the search is the
  number of available accounts that meet the other conditions of the query.
\<close>

theorem listings_only_available:
  "(list_accounts st page_q limit_q = Inr r \<longrightarrow>
      (\<forall>a \<in> set (listed r). a \<in> set (accounts st) \<and> acc_status a = Available) \<and>
      (\<forall>a \<in> set (accounts st). acc_status a \<noteq> Available \<longrightarrow> a \<notin> set (listed r)) \<and>
      totalCount (pages r) = int (length (filter (\<lambda>a. acc_status a = Available) (accounts st)))) \<and>
   (search_accounts lower ilike st q = Inr r' \<longrightarrow>
      (\<forall>a \<in> set (listed r'). a \<in> set (accounts st) \<and> acc_status a = Available) \<and>
      (\<forall>a \<in> set (accounts st). acc_status a \<noteq> Available \<longrightarrow> a \<notin> set (listed r')) \<and>
      totalCount (pages r') =
        int (length (filter (\<lambda>a. acc_status a = Available \<and>
                                list_all (\<lambda>c. c a) (search_conditions lower ilike q)) (accounts st))))"
proof -
  have p1: "list_accounts st page_q limit_q = Inr r \<longrightarrow>
      (\<forall>a \<in> set (listed r). a \<in> set (accounts st) \<and> acc_status a = Available) \<and>
      (\<forall>a \<in> set (accounts st). acc_status a \<noteq> Available \<longrightarrow> a \<notin> set (listed r)) \<and>
      totalCount (pages r) = int (length (filter (\<lambda>a. acc_status a = Available) (accounts st)))"
  proof
    assume "list_accounts st page_q limit_q = Inr r"
    from list_accounts_result [OF this]
    show "(\<forall>a \<in> set (listed r). a \<in> set (accounts st) \<and> acc_status a = Available) \<and>
      (\<forall>a \<in> set (accounts st). acc_status a \<noteq> Available \<longrightarrow> a \<notin> set (listed r)) \<and>
      totalCount (pages r) = int (length (filter (\<lambda>a. acc_status a = Available) (accounts st)))"
      by auto
  qed
  have p2: "search_accounts lower ilike st q = Inr r' \<longrightarrow>
      (\<forall>a \<in> set (listed r'). a \<in> set (accounts st) \<and> acc_status a = Available) \<and>
      (\<forall>a \<in> set (accounts st). acc_status a \<noteq> Available \<longrightarrow> a \<notin> set (listed r')) \<and>
      totalCount (pages r') =
        int (length (filter (\<lambda>a. acc_status a = Available \<and>
                                list_all (\<lambda>c. c a) (search_conditions lower ilike q)) (accounts st)))"
  proof
    assume "search_accounts lower ilike st q = Inr r'"
    from search_accounts_result [OF this]
    have sub: "set (listed r') \<subseteq>
        set (filter (\<lambda>a. list_all (\<lambda>c. c a) (search_conditions lower ilike q)) (accounts st))"
      and cnt: "totalCount (pages r') =
           int (length (filter (\<lambda>a. list_all (\<lambda>c. c a) (search_conditions lower ilike q)) (accounts st)))"
      by blast+
    have a: "\<forall>a \<in> set (listed r'). a \<in> set (accounts st) \<and> acc_status a = Available"
      using sub by (auto dest: search_conditions_status)
    then have b: "\<forall>a \<in> set (accounts st). acc_status a \<noteq> Available \<longrightarrow> a \<notin> set (listed r')"
      by blast
    have c: "totalCount (pages r') =
        int (length (filter (\<lambda>a. acc_status a = Available \<and>
                                list_all (\<lambda>c. c a) (search_conditions lower ilike q)) (accounts st)))"
      using cnt by (simp only: filter_conj_status [symmetric])
    from a b c show "(\<forall>a \<in> set (listed r'). a \<in> set (accounts st) \<and> acc_status a = Available) \<and>
      (\<forall>a \<in> set (accounts st). acc_status a \<noteq> Available \<longrightarrow> a \<notin> set (listed r')) \<and>
      totalCount (pages r') =
        int (length (filter (\<lambda>a. acc_status a = Available \<and>
                                list_all (\<lambda>c. c a) (search_conditions lower ilike q)) (accounts st)))"
      by (intro conjI)
  qed
  from p1 p2 show ?thesis by (rule conjI)
qed

lemmas listing_defs =
  list_accounts_def search_accounts_def search_conditions_def paginate_def limit_clause_def
  offset_clause_def int8_ok_def js_offset_def order_by_created_desc_id_def ceil_div_def has_more_def

lemma demo_listing_eval:
  "list_accounts demo_reserved None None =
     Inr \<lparr>listed = [demo_account2],
          pages = \<lparr>currentPage = Some 1, totalPages = Pages 1, totalCount = 1, hasMore = False,
                   page_limit = Some 6\<rparr>\<rparr>"
  by (simp add: listing_defs demo_reserved_eval demo_defs)

lemma demo_listing_all_eval:
  "list_accounts demo_store (Some 1) (Some 1) =
     Inr \<lparr>listed = [demo_account2],
          pages = \<lparr>currentPage = Some 1, totalPages = Pages 2, totalCount = 2, hasMore = True,
                   page_limit = Some 1\<rparr>\<rparr>"
  by (simp add: listing_defs demo_defs)

text \<open>
  \<^verbatim>\<open>GET /accounts?limit=-1\<close> on the ledger with account 10 reserved: no LIMIT clause,
  and still the pending account is not listed.
\<close>

lemma demo_listing_negative_eval:
  "list_accounts demo_reserved None (Some (- 1)) =
     Inr \<lparr>listed = [demo_account2],
          pages = \<lparr>currentPage = Some 1, totalPages = Pages (- 1), totalCount = 1, hasMore = False,
                   page_limit = Some (- 1)\<rparr>\<rparr>"
  by (simp add: listing_defs Let_def demo_reserved_eval demo_defs)

lemma demo_split:
  "split_on 44 (js ''Telegram_Channel, youtube_channel,'') =
     [js ''Telegram_Channel'', js '' youtube_channel'', []]"
  by (simp add: js_def)

lemma demo_types:
  "filter (\<lambda>t. t \<noteq> []) (map (\<lambda>t. toLowerCase lower (trim t))
      (split_on 44 (js ''Telegram_Channel, youtube_channel,''))) =
    [js ''telegram_channel'', js ''youtube_channel'']"
  by (simp add: demo_split) (simp add: string_defs)

lemma demo_search_eval:
  "search_accounts lower demo_ilike demo_reserved demo_query =
     Inr \<lparr>listed = [demo_account2],
          pages = \<lparr>currentPage = Some 1, totalPages = Pages 1, totalCount = 1, hasMore = False,
                   page_limit = Some 6\<rparr>\<rparr>"
  by (simp add: listing_defs demo_types demo_query_def demo_ilike_def demo_reserved_eval demo_defs
        js_eq_iff)

text \<open>The same search with \<^verbatim>\<open>limit=0\<close>: an empty page, and \<open>Infinity\<close> pages to come.\<close>

lemma demo_search_zero_eval:
  "search_accounts lower demo_ilike demo_reserved (demo_query\<lparr>search_limit := Some 0\<rparr>) =
     Inr \<lparr>listed = [],
          pages = \<lparr>currentPage = Some 1, totalPages = PagesInfinity, totalCount = 1, hasMore = True,
                   page_limit = Some 0\<rparr>\<rparr>"
  by (simp add: listing_defs demo_types demo_query_def demo_ilike_def demo_reserved_eval demo_defs
        js_eq_iff)

theorem listings_only_available_witness:
  "list_accounts demo_reserved None None =
     Inr \<lparr>listed = [demo_account2],
          pages = \<lparr>currentPage = Some 1, totalPages = Pages 1, totalCount = 1, hasMore = False,
                   page_limit = Some 6\<rparr>\<rparr> \<and>
   list_accounts demo_reserved None (Some (- 1)) =
     Inr \<lparr>listed = [demo_account2],
          pages = \<lparr>currentPage = Some 1, totalPages = Pages (- 1), totalCount = 1, hasMore = False,
                   page_limit = Some (- 1)\<rparr>\<rparr> \<and>
   search_accounts demo_case demo_ilike demo_reserved demo_query =
     Inr \<lparr>listed = [demo_account2],
          pages = \<lparr>currentPage = Some 1, totalPages = Pages 1, totalCount = 1, hasMore = False,
                   page_limit = Some 6\<rparr>\<rparr> \<and>
   demo_account\<lparr>acc_status := Pending\<rparr> \<in> set (accounts demo_reserved) \<and>
   demo_account\<lparr>acc_status := Pending\<rparr> \<notin> set [demo_account2] \<and>
   acc_status demo_account2 = Available \<and>
   int (length (filter (\<lambda>a. acc_status a = Available) (accounts demo_reserved))) = 1"
proof -
  let ?r = "\<lparr>listed = [demo_account2],
          pages = \<lparr>currentPage = Some 1, totalPages = Pages 1, totalCount = 1, hasMore = False,
                   page_limit = Some 6\<rparr>\<rparr>"
  note inst = listings_only_available [where st = demo_reserved and page_q = None and limit_q = None
      and r = ?r and lower = demo_case and ilike = demo_ilike and q = demo_query and r' = ?r]
  have mem: "demo_account\<lparr>acc_status := Pending\<rparr> \<in> set (accounts demo_reserved)"
    by (simp add: demo_reserved_eval)
  have pend: "acc_status (demo_account\<lparr>acc_status := Pending\<rparr>) \<noteq> Available"
    by simp
  from inst demo_listing_eval
  have l1: "\<forall>a \<in> set (listed ?r). a \<in> set (accounts demo_reserved) \<and> acc_status a = Available"
    and l2: "\<forall>a \<in> set (accounts demo_reserved). acc_status a \<noteq> Available \<longrightarrow> a \<notin> set (listed ?r)"
    and l3: "totalCount (pages ?r) =
        int (length (filter (\<lambda>a. acc_status a = Available) (accounts demo_reserved)))"
    by blast+
  let ?n = "\<lparr>listed = [demo_account2],
          pages = \<lparr>currentPage = Some 1, totalPages = Pages (- 1), totalCount = 1, hasMore = False,
                   page_limit = Some (- 1)\<rparr>\<rparr>"
  from listings_only_available [where st = demo_reserved and page_q = None and limit_q = "Some (- 1)"
      and r = ?n] demo_listing_negative_eval
  have "\<forall>a \<in> set (accounts demo_reserved). acc_status a \<noteq> Available \<longrightarrow> a \<notin> set (listed ?n)"
    by blast
  with l2 mem pend have out: "demo_account\<lparr>acc_status := Pending\<rparr> \<notin> set [demo_account2]"
    by auto
  from l1 have av: "acc_status demo_account2 = Available"
    by simp
  from l3 have cnt: "int (length (filter (\<lambda>a. acc_status a = Available) (accounts demo_reserved))) = 1"
    by simp
  from demo_listing_eval demo_listing_negative_eval demo_search_eval [of demo_case] mem out av cnt
  show ?thesis
    by (intro conjI)
qed


section \<open>The status graph\<close>

lemma status_of_same_accounts:
  "accounts st' = accounts st \<Longrightarrow> status_of st' a = status_of st a"
  by (simp add: status_of_def account_by_id_def)

lemma status_of_set_status:
  assumes "accounts st' = set_status s aid (accounts st)"
  shows "status_of st' a = (if a = aid then map_option (\<lambda>_. s) (status_of st a) else status_of st a)"
proof (cases "a = aid")
  case True
  then show ?thesis
    using assms
    by (auto simp: status_of_def account_by_id_def account_by_id_set_status first_row_def
             split: list.splits)
next
  case False
  then show ?thesis
    using assms
    by (simp add: status_of_def account_by_id_def account_by_id_set_status_other)
qed

lemma filter_other_after_delete:
  "a \<noteq> aid \<Longrightarrow>
   filter (\<lambda>r. acc_id r = a) (filter (\<lambda>r. acc_id r \<noteq> aid) rows) = filter (\<lambda>r. acc_id r = a) rows"
  by (induction rows) auto

lemma status_of_delete:
  assumes "accounts st' = filter (\<lambda>r. acc_id r \<noteq> aid) (accounts st)"
  shows "status_of st' a = (if a = aid then None else status_of st a)"
  using assms
  by (simp add: status_of_def account_by_id_def account_by_id_after_delete
        filter_other_after_delete first_row_def del: filter_filter)

lemma status_of_append:
  assumes "accounts st' = accounts st @ [new]"
  shows "status_of st' a =
          (case status_of st a of
             Some s \<Rightarrow> Some s
           | None \<Rightarrow> if acc_id new = a then Some (acc_status new) else None)"
  using assms
  by (auto simp: status_of_def account_by_id_def first_row_def split: list.splits)

lemma reserve_accounts:
  "accounts (snd (reserve st aid b)) = accounts st \<or>
   (status_of st aid = Some Available \<and>
    accounts (snd (reserve st aid b)) = set_status Pending aid (accounts st))"
  by (auto simp: reserve_def status_of_def first_row_def Let_def split: option.splits list.splits)

lemma createOrder_accounts:
  "accounts (snd (createOrder st buyer aid amt receipt)) = accounts st"
  by (auto simp: createOrder_def insert_order_def Let_def split: option.splits)

lemma update_order_accounts:
  "accounts (snd (update_order st oid status)) = accounts st \<or>
   (status = ''completed'' \<and>
    (\<exists>ord. first_row (filter (\<lambda>r. ord_id r = oid) (orders st)) = Some ord \<and>
       accounts (snd (update_order st oid status)) = set_status Sold (account_id ord) (accounts st)))"
  by (auto simp: update_order_def first_row_def Let_def split: list.splits)

lemma cancelOrder_accounts:
  "accounts (snd (cancelOrder st oid)) = accounts st \<or>
   (\<exists>ord. first_row (filter (\<lambda>r. ord_id r = oid) (orders st)) = Some ord \<and>
      accounts (snd (cancelOrder st oid)) = set_status Available (account_id ord) (accounts st))"
  by (auto simp: cancelOrder_def first_row_def Let_def split: list.splits)

lemma delete_account_accounts:
  "accounts (snd (delete_account st aid)) = accounts st \<or>
   (status_of st aid = Some Available \<and>
    accounts (snd (delete_account st aid)) = filter (\<lambda>r. acc_id r \<noteq> aid) (accounts st))"
  by (auto simp: delete_account_def status_of_def first_row_def Let_def split: list.splits)

lemma confirm_delete_accounts:
  "accounts (snd (confirm_delete st aid tg)) = accounts st \<or>
   (status_of st aid = Some Available \<and>
    accounts (snd (confirm_delete st aid tg)) = filter (\<lambda>r. acc_id r \<noteq> aid) (accounts st))"
  using delete_account_accounts [of st aid]
  by (simp add: confirm_delete_def)

lemma release_accounts:
  "accounts (release_reservation st aid) = accounts st \<or>
   (status_of st aid = Some Pending \<and>
    accounts (release_reservation st aid) = set_status Available aid (accounts st))"
  by (auto simp: release_reservation_def status_of_def first_row_def Let_def split: list.splits)

lemma create_account_accounts:
  "accounts (snd (create_account st owner pf nm pr subs yr mon now bank)) = accounts st \<or>
   (\<exists>new. acc_status new = Available \<and>
      accounts (snd (create_account st owner pf nm pr subs yr mon now bank)) = accounts st @ [new])"
  by (auto simp: create_account_def Let_def)

lemma apply_op_accounts:
  "accounts (apply_op st op) = accounts st \<or>
   (\<exists>aid b. op = Reserve aid b \<and> status_of st aid = Some Available \<and>
      accounts (apply_op st op) = set_status Pending aid (accounts st)) \<or>
   (\<exists>oid ord. op = CompleteOrder oid \<and>
      first_row (filter (\<lambda>r. ord_id r = oid) (orders st)) = Some ord \<and>
      accounts (apply_op st op) = set_status Sold (account_id ord) (accounts st)) \<or>
   (\<exists>oid ord. op = CancelOrder oid \<and>
      first_row (filter (\<lambda>r. ord_id r = oid) (orders st)) = Some ord \<and>
      accounts (apply_op st op) = set_status Available (account_id ord) (accounts st)) \<or>
   (\<exists>aid tg. op = DeleteAccount aid tg \<and> status_of st aid = Some Available \<and>
      accounts (apply_op st op) = filter (\<lambda>r. acc_id r \<noteq> aid) (accounts st)) \<or>
   (\<exists>aid. op = ReservationExpiry aid \<and> status_of st aid = Some Pending \<and>
      accounts (apply_op st op) = set_status Available aid (accounts st)) \<or>
   (\<exists>owner pf nm pr subs yr mon now new. op = ListAccount owner pf nm pr subs yr mon now \<and>
      acc_status new = Available \<and> accounts (apply_op st op) = accounts st @ [new])"
proof (cases op)
  case (ListAccount owner pf nm pr subs yr mon now)
  then show ?thesis
    using create_account_accounts [of st owner pf nm pr subs yr mon now True] by auto
next
  case (Reserve aid b)
  then show ?thesis using reserve_accounts [of st aid b] by auto
next
  case (CreateOrder buyer aid amt receipt)
  then show ?thesis by (simp add: createOrder_accounts)
next
  case (CompleteOrder oid)
  then show ?thesis using update_order_accounts [of st oid "''completed''"] by auto
next
  case (CancelOrder oid)
  then show ?thesis using cancelOrder_accounts [of st oid] by auto
next
  case (DeleteAccount aid tg)
  then show ?thesis using confirm_delete_accounts [of st aid tg] by auto
next
  case (ReservationExpiry aid)
  then show ?thesis using release_accounts [of st aid] by auto
qed

lemma step_same: "accounts st' = accounts st \<Longrightarrow> status_step (status_of st a) (status_of st' a)"
  using status_of_same_accounts [of st' st a] by (simp add: status_step_def)

lemma step_set_status:
  assumes "accounts st' = set_status s' aid (accounts st)" "status_of st aid = Some s"
    and "status_step (Some s) (Some s')"
  shows "status_step (status_of st a) (status_of st' a)"
proof -
  have eq: "status_of st' a =
      (if a = aid then map_option (\<lambda>_. s') (status_of st a) else status_of st a)"
    by (rule status_of_set_status [OF assms(1)])
  show ?thesis
  proof (cases "a = aid")
    case True
    with eq assms(2) have "status_of st' a = Some s'" by simp
    with True assms(2) assms(3) show ?thesis by simp
  next
    case False
    with eq have "status_of st' a = status_of st a" by simp
    then show ?thesis by (simp add: status_step_def)
  qed
qed

lemma step_delete:
  assumes "accounts st' = filter (\<lambda>r. acc_id r \<noteq> aid) (accounts st)" "status_of st aid = Some Available"
  shows "status_step (status_of st a) (status_of st' a)"
proof -
  have eq: "status_of st' a = (if a = aid then None else status_of st a)"
    by (rule status_of_delete [OF assms(1)])
  show ?thesis
  proof (cases "a = aid")
    case True
    with eq have "status_of st' a = None" by simp
    with True assms(2) show ?thesis by (simp add: status_step_def)
  next
    case False
    with eq have "status_of st' a = status_of st a" by simp
    then show ?thesis by (simp add: status_step_def)
  qed
qed

lemma step_append:
  assumes "accounts st' = accounts st @ [new]" "acc_status new = Available"
  shows "status_step (status_of st a) (status_of st' a)"
proof -
  have eq: "status_of st' a =
          (case status_of st a of
             Some s \<Rightarrow> Some s
           | None \<Rightarrow> if acc_id new = a then Some (acc_status new) else None)"
    by (rule status_of_append [OF assms(1)])
  show ?thesis
  proof (cases "status_of st a")
    case None
    with eq assms(2) have "status_of st' a = Some Available \<or> status_of st' a = None" by simp
    with None show ?thesis by (auto simp: status_step_def)
  next
    case (Some s)
    with eq have "status_of st' a = Some s" by simp
    with Some show ?thesis by (simp add: status_step_def)
  qed
qed

lemma apply_op_cases:
  obtains
    (same) "accounts (apply_op st op) = accounts st"
  | (reserve) aid b where "op = Reserve aid b" "status_of st aid = Some Available"
      "accounts (apply_op st op) = set_status Pending aid (accounts st)"
  | (complete) oid ord where "op = CompleteOrder oid"
      "first_row (filter (\<lambda>r. ord_id r = oid) (orders st)) = Some ord"
      "accounts (apply_op st op) = set_status Sold (account_id ord) (accounts st)"
  | (cancel) oid ord where "op = CancelOrder oid"
      "first_row (filter (\<lambda>r. ord_id r = oid) (orders st)) = Some ord"
      "accounts (apply_op st op) = set_status Available (account_id ord) (accounts st)"
  | (delete) aid tg where "op = DeleteAccount aid tg" "status_of st aid = Some Available"
      "accounts (apply_op st op) = filter (\<lambda>r. acc_id r \<noteq> aid) (accounts st)"
  | (expiry) aid where "op = ReservationExpiry aid" "status_of st aid = Some Pending"
      "accounts (apply_op st op) = set_status Available aid (accounts st)"
  | (list) owner pf nm pr subs yr mon now new where
      "op = ListAccount owner pf nm pr subs yr mon now"
      "acc_status new = Available" "accounts (apply_op st op) = accounts st @ [new]"
  using apply_op_accounts [of st op] by blast

lemma apply_op_step:
  assumes "called_on_pending st op"
  shows "status_step (status_of st a) (status_of (apply_op st op) a)"
proof (cases rule: apply_op_cases [of st op])
  case same
  then show ?thesis by (rule step_same)
next
  case (reserve aid b)
  show ?thesis
    by (rule step_set_status [OF reserve(3) reserve(2)]) (simp add: status_step_def)
next
  case (complete oid ord)
  with assms have "status_of st (account_id ord) = Some Pending"
    by (simp add: order_account_pending_def)
  then show ?thesis
    by (rule step_set_status [OF complete(3)]) (simp add: status_step_def)
next
  case (cancel oid ord)
  with assms have "status_of st (account_id ord) = Some Pending"
    by (simp add: order_account_pending_def)
  then show ?thesis
    by (rule step_set_status [OF cancel(3)]) (simp add: status_step_def)
next
  case (delete aid tg)
  show ?thesis by (rule step_delete [OF delete(3) delete(2)])
next
  case (expiry aid)
  show ?thesis
    by (rule step_set_status [OF expiry(3) expiry(2)]) (simp add: status_step_def)
next
  case (list owner pf nm pr subs yr mon now new)
  show ?thesis by (rule step_append [OF list(3) list(2)])
qed

lemma changed_by_set_status:
  assumes "accounts st' = set_status s' aid (accounts st)"
    and "status_of st' a = Some x" "status_of st a \<noteq> Some x"
  shows "x = s' \<and> a = aid \<and> status_of st a \<noteq> None"
  using status_of_set_status [OF assms(1), of a] assms(2) assms(3)
  by (cases "a = aid"; cases "status_of st a") auto

lemma changed_by_delete:
  assumes "accounts st' = filter (\<lambda>r. acc_id r \<noteq> aid) (accounts st)"
    and "status_of st' a = Some x" "status_of st a \<noteq> Some x"
  shows False
  using status_of_delete [OF assms(1), of a] assms(2) assms(3)
  by (cases "a = aid") auto

lemma changed_by_append:
  assumes "accounts st' = accounts st @ [new]" "acc_status new = Available"
    and "status_of st' a = Some x" "status_of st a \<noteq> Some x"
  shows "x = Available \<and> status_of st a = None"
  using status_of_append [OF assms(1), of a] assms(2) assms(3) assms(4)
  by (cases "status_of st a") (auto split: if_splits)

lemma changed_by_nothing:
  assumes "accounts st' = accounts st"
    and "status_of st' a = Some x" "status_of st a \<noteq> Some x"
  shows False
  using status_of_same_accounts [OF assms(1), of a] assms(2) assms(3) by simp

lemma status_change_origin:
  assumes "status_of (apply_op st op) a = Some x" "status_of st a \<noteq> Some x"
  shows "(x = Sold \<and> (\<exists>oid. op = CompleteOrder oid)) \<or>
         (x = Pending \<and> status_of st a = Some Available \<and> (\<exists>b. op = Reserve a b)) \<or>
         (x = Available \<and>
            ((\<exists>oid. op = CancelOrder oid) \<or> op = ReservationExpiry a \<or>
             (status_of st a = None \<and>
              (\<exists>owner pf nm pr subs yr mon now. op = ListAccount owner pf nm pr subs yr mon now))))"
proof (cases rule: apply_op_cases [of st op])
  case same
  from changed_by_nothing [OF same assms] show ?thesis ..
next
  case (reserve aid b)
  from changed_by_set_status [OF reserve(3) assms] reserve(1) reserve(2) show ?thesis by simp
next
  case (complete oid ord)
  from changed_by_set_status [OF complete(3) assms] complete(1) show ?thesis by simp
next
  case (cancel oid ord)
  from changed_by_set_status [OF cancel(3) assms] cancel(1) show ?thesis by simp
next
  case (delete aid tg)
  from changed_by_delete [OF delete(3) assms] show ?thesis ..
next
  case (expiry aid)
  from changed_by_set_status [OF expiry(3) assms] expiry(1) show ?thesis by simp
next
  case (list owner pf nm pr subs yr mon now new)
  from changed_by_append [OF list(3) list(2) assms] list(1) show ?thesis by simp
qed

text \<open>
  Claim C5, amended. For every store and every operation (listing an account, reserve,
  createOrder, completeOrder, cancelOrder, deleteAccount, reservation expiry), when
  completeOrder and cancelOrder are applied to an order whose account is pending, the
  status of every account moves along the graph only. In any case, a status that an
  operation newly gives to an account is 'sold' only by completeOrder, 'pending' only by
  a reservation of an available account, and 'available' only by cancelOrder, by the
  reservation expiry, or by the creation of the account.
\<close>

theorem status_moves_along_graph:
  "(called_on_pending st op \<longrightarrow> status_step (status_of st a) (status_of (apply_op st op) a)) \<and>
   (status_of (apply_op st op) a = Some Sold \<and> status_of st a \<noteq> Some Sold \<longrightarrow>
      (\<exists>oid. op = CompleteOrder oid)) \<and>
   (status_of (apply_op st op) a = Some Pending \<and> status_of st a \<noteq> Some Pending \<longrightarrow>
      status_of st a = Some Available \<and> (\<exists>b. op = Reserve a b)) \<and>
   (status_of (apply_op st op) a = Some Available \<and> status_of st a \<noteq> Some Available \<longrightarrow>
      (\<exists>oid. op = CancelOrder oid) \<or> op = ReservationExpiry a \<or>
      (status_of st a = None \<and>
       (\<exists>owner pf nm pr subs yr mon now. op = ListAccount owner pf nm pr subs yr mon now)))"
proof -
  have p1: "called_on_pending st op \<longrightarrow> status_step (status_of st a) (status_of (apply_op st op) a)"
    using apply_op_step by blast
  have p2: "status_of (apply_op st op) a = Some Sold \<and> status_of st a \<noteq> Some Sold \<longrightarrow>
      (\<exists>oid. op = CompleteOrder oid)"
    using status_change_origin [of st op a Sold] by simp
  have p3: "status_of (apply_op st op) a = Some Pending \<and> status_of st a \<noteq> Some Pending \<longrightarrow>
      status_of st a = Some Available \<and> (\<exists>b. op = Reserve a b)"
    using status_change_origin [of st op a Pending] by simp
  have p4: "status_of (apply_op st op) a = Some Available \<and> status_of st a \<noteq> Some Available \<longrightarrow>
      (\<exists>oid. op = CancelOrder oid) \<or> op = ReservationExpiry a \<or>
      (status_of st a = None \<and>
       (\<exists>owner pf nm pr subs yr mon now. op = ListAccount owner pf nm pr subs yr mon now))"
    using status_change_origin [of st op a Available] by simp
  from p1 p2 p3 p4 show ?thesis by (intro conjI)
qed

theorem status_moves_along_graph_witness:
  "called_on_pending demo_ordered (CompleteOrder 20) \<and>
   status_of demo_ordered 10 = Some Pending \<and>
   status_of (apply_op demo_ordered (CompleteOrder 20)) 10 = Some Sold \<and>
   status_step (Some Pending) (Some Sold) \<and>
   called_on_pending demo_ordered (CancelOrder 20) \<and>
   status_of (apply_op demo_ordered (CancelOrder 20)) 10 = Some Available \<and>
   status_step (Some Pending) (Some Available) \<and>
   status_of demo_store 10 = Some Available \<and>
   status_of (apply_op demo_store (Reserve 10 (Some 2))) 10 = Some Pending \<and>
   status_step (Some Available) (Some Pending) \<and>
   \<not> called_on_pending demo_completed (CancelOrder 20)"
proof -
  have pre: "called_on_pending demo_ordered (CompleteOrder 20)"
    "called_on_pending demo_ordered (CancelOrder 20)"
    "called_on_pending demo_store (Reserve 10 (Some 2))"
    by (simp_all add: order_account_pending_def demo_ordered_eval store_defs demo_defs)
  have s0: "status_of demo_store 10 = Some Available"
    by (simp add: store_defs demo_defs)
  have s1: "status_of demo_ordered 10 = Some Pending"
    by (simp add: demo_ordered_eval store_defs demo_defs)
  have c: "status_of (apply_op demo_ordered (CompleteOrder 20)) 10 = Some Sold"
    using demo_completed_eval by (simp add: demo_completed_def store_defs demo_defs)
  have x: "status_of (apply_op demo_ordered (CancelOrder 20)) 10 = Some Available"
    by (simp add: demo_ordered_eval op_defs store_defs demo_defs)
  have r: "status_of (apply_op demo_store (Reserve 10 (Some 2))) 10 = Some Pending"
    using demo_reserved_eval by (simp add: demo_reserved_def store_defs demo_defs)
  have e1: "status_step (Some Pending) (Some Sold)"
    using status_moves_along_graph [of demo_ordered "CompleteOrder 20" 10] pre(1) s1 c by simp
  have e2: "status_step (Some Pending) (Some Available)"
    using status_moves_along_graph [of demo_ordered "CancelOrder 20" 10] pre(2) s1 x by simp
  have e3: "status_step (Some Available) (Some Pending)"
    using status_moves_along_graph [of demo_store "Reserve 10 (Some 2)" 10] pre(3) s0 r by simp
  have n: "\<not> called_on_pending demo_completed (CancelOrder 20)"
    by (simp add: order_account_pending_def demo_completed_eval store_defs demo_defs)
  from pre(1) s1 c e1 pre(2) x e2 s0 r e3 n show ?thesis by (intro conjI)
qed


section \<open>The seller's credit, run by run\<close>

lemma filter_map_preserved:
  "(\<And>x. P (f x) = P x) \<Longrightarrow> filter P (map f xs) = map f (filter P xs)"
  by (induction xs) auto

lemma first_row_map: "first_row (map f xs) = map_option f (first_row xs)"
  by (cases xs) (simp_all add: first_row_def)

lemma first_row_Some: "first_row xs = Some x \<Longrightarrow> \<exists>rest. xs = x # rest"
  by (cases xs) (simp_all add: first_row_def)

lemma transfer_complete_run:
  assumes o: "first_row (filter (\<lambda>r. ord_id r = oid) (orders st)) = Some ord"
    and b: "get_user st (buyer_id ord) = Some buyer"
    and a: "first_row (account_by_id st (account_id ord)) = Some acc"
    and s: "get_user st (owner_id acc) = Some seller"
    and r: "int4_ok (to_number (balance seller) + price acc)"
  shows "transfer_complete st oid =
    (Inr (),
     st\<lparr>orders := map (\<lambda>r. if ord_id r = oid then r\<lparr>ord_status := ''completed''\<rparr> else r) (orders st),
        accounts := set_status Sold (account_id ord) (accounts st),
        timers := timers st @ [\<lparr>delay_ms = 5000, timer_task = CleanupCompletedOrder (account_id ord)\<rparr>],
        users := map (\<lambda>u. if user_id u = owner_id acc
                           then u\<lparr>balance := Some (to_number (balance seller) + price acc)\<rparr> else u)
                   (users st)\<rparr>)"
proof -
  define upd :: "order_row \<Rightarrow> order_row" where "upd = (\<lambda>r. if ord_id r = oid then r\<lparr>ord_status := ''completed''\<rparr> else r)"
  define st1 where "st1 = st\<lparr>orders := map upd (orders st),
        accounts := set_status Sold (account_id ord) (accounts st),
        timers := timers st @ [\<lparr>delay_ms = 5000, timer_task = CleanupCompletedOrder (account_id ord)\<rparr>]\<rparr>"
  from first_row_Some [OF o] obtain os where os: "filter (\<lambda>r. ord_id r = oid) (orders st) = ord # os"
    by blast
  from first_row_Some [OF b [unfolded get_user_def]] obtain bs where
    bs: "filter (\<lambda>u. user_id u = buyer_id ord) (users st) = buyer # bs"
    by blast
  from first_row_Some [OF a [unfolded account_by_id_def]] obtain as where
    as: "filter (\<lambda>r. acc_id r = account_id ord) (accounts st) = acc # as"
    by blast
  from first_row_Some [OF s [unfolded get_user_def]] obtain ss where
    ss: "filter (\<lambda>u. user_id u = owner_id acc) (users st) = seller # ss"
    by blast
  have u: "update_order st oid ''completed'' = (Inr (Some (ord\<lparr>ord_status := ''completed''\<rparr>)), st1)"
    by (simp add: update_order_def Let_def first_row_def os st1_def upd_def)
  have pres: "\<And>x. (ord_id (upd x) = oid) = (ord_id x = oid)"
    by (simp add: upd_def)
  have o1: "filter (\<lambda>r. ord_id r = oid) (orders st1) = map upd (ord # os)"
    using filter_map_preserved [of "\<lambda>r. ord_id r = oid" upd "orders st", OF pres]
    by (simp add: st1_def os)
  have ou: "upd ord = ord\<lparr>ord_status := ''completed''\<rparr>"
    using os by (metis (mono_tags, lifting) filter_eq_ConsD upd_def)
  have a1: "account_by_id st1 (account_id ord) = map (\<lambda>r. r\<lparr>acc_status := Sold\<rparr>) (acc # as)"
    by (simp add: st1_def account_by_id_def account_by_id_set_status as)
  have us: "users st1 = users st"
    by (simp add: st1_def)
  have g: "get_order st1 oid =
      Inr (ord\<lparr>ord_status := ''completed''\<rparr>, acc\<lparr>acc_status := Sold\<rparr>, buyer, seller)"
    by (simp add: get_order_def o1 ou a1 us bs ss)
  have gu: "get_user st1 (owner_id acc) = Some seller"
    by (simp add: get_user_def us ss first_row_def)
  have rd: "transfer_complete_read st oid =
      (Inr (owner_id acc, to_number (balance seller) + price acc), st1)"
    by (simp add: transfer_complete_read_def u g gu)
  have wr: "put_user_balance st1 (owner_id acc) (to_number (balance seller) + price acc) =
      (Inr (Some (seller\<lparr>balance := Some (to_number (balance seller) + price acc)\<rparr>)),
       st1\<lparr>users := map (\<lambda>u. if user_id u = owner_id acc
                           then u\<lparr>balance := Some (to_number (balance seller) + price acc)\<rparr> else u)
                   (users st1)\<rparr>)"
    using r by (simp add: put_user_balance_def us ss first_row_def)
  show ?thesis
    by (simp add: transfer_complete_def rd transfer_complete_write_def wr)
       (simp add: st1_def upd_def)
qed

lemma sale_of_Some:
  assumes "sale_of st oid = Some (sid, p)"
  shows "\<exists>ord buyer acc. first_row (filter (\<lambda>r. ord_id r = oid) (orders st)) = Some ord \<and>
           get_user st (buyer_id ord) = Some buyer \<and>
           first_row (account_by_id st (account_id ord)) = Some acc \<and>
           owner_id acc = sid \<and> price acc = p"
  using assms by (auto simp: sale_of_def split: option.splits)

lemma sale_of_preserved:
  assumes o: "orders st' = map fo (orders st)"
    and fo: "\<And>r. ord_id (fo r) = ord_id r \<and> buyer_id (fo r) = buyer_id r \<and> account_id (fo r) = account_id r"
    and a: "accounts st' = map fa (accounts st)"
    and fa: "\<And>r. acc_id (fa r) = acc_id r \<and> owner_id (fa r) = owner_id r \<and> price (fa r) = price r"
    and u: "users st' = map fu (users st)"
    and fu: "\<And>r. user_id (fu r) = user_id r"
  shows "sale_of st' oid = sale_of st oid"
proof -
  have ord: "first_row (filter (\<lambda>r. ord_id r = oid) (orders st')) =
      map_option fo (first_row (filter (\<lambda>r. ord_id r = oid) (orders st)))"
    using filter_map_preserved [of "\<lambda>r. ord_id r = oid" fo "orders st"] fo
    by (simp add: o first_row_map)
  have usr: "\<And>uid. get_user st' uid = map_option fu (get_user st uid)"
    using filter_map_preserved [of "\<lambda>r. user_id r = uid" fu "users st" for uid] fu
    by (simp add: get_user_def u first_row_map)
  have acc: "\<And>aid. first_row (account_by_id st' aid) = map_option fa (first_row (account_by_id st aid))"
    using filter_map_preserved [of "\<lambda>r. acc_id r = aid" fa "accounts st" for aid] fa
    by (simp add: account_by_id_def a first_row_map)
  show ?thesis
  proof (cases "first_row (filter (\<lambda>r. ord_id r = oid) (orders st))")
    case None
    then show ?thesis by (simp add: sale_of_def ord)
  next
    case (Some r)
    show ?thesis
    proof (cases "get_user st (buyer_id r)")
      case None
      with Some show ?thesis by (simp add: sale_of_def ord usr fo)
    next
      case (Some b)
      note b = this
      show ?thesis
      proof (cases "first_row (account_by_id st (account_id r))")
        case None
        with \<open>first_row (filter (\<lambda>r. ord_id r = oid) (orders st)) = Some r\<close> b
        show ?thesis by (simp add: sale_of_def ord usr acc fo)
      next
        case (Some c)
        with \<open>first_row (filter (\<lambda>r. ord_id r = oid) (orders st)) = Some r\<close> b
        show ?thesis by (simp add: sale_of_def ord usr acc fo fa)
      qed
    qed
  qed
qed

lemma transfer_complete_credit:
  assumes sale: "sale_of st oid = Some (sid, p)"
    and s: "get_user st sid = Some seller"
    and r: "int4_ok (to_number (balance seller) + p)"
  shows "fst (transfer_complete st oid) = Inr ()"
    and "get_user (snd (transfer_complete st oid)) sid =
           Some (seller\<lparr>balance := Some (to_number (balance seller) + p)\<rparr>)"
    and "sale_of (snd (transfer_complete st oid)) oid' = sale_of st oid'"
proof -
  from sale_of_Some [OF sale] obtain ord buyer acc where
    o: "first_row (filter (\<lambda>r. ord_id r = oid) (orders st)) = Some ord"
    and b: "get_user st (buyer_id ord) = Some buyer"
    and a: "first_row (account_by_id st (account_id ord)) = Some acc"
    and own: "owner_id acc = sid" and pr: "price acc = p"
    by blast
  define fo :: "order_row \<Rightarrow> order_row"
    where "fo = (\<lambda>r. if ord_id r = oid then r\<lparr>ord_status := ''completed''\<rparr> else r)"
  define fa :: "account_row \<Rightarrow> account_row"
    where "fa = (\<lambda>r. if acc_id r = account_id ord then r\<lparr>acc_status := Sold\<rparr> else r)"
  define fu :: "user_row \<Rightarrow> user_row"
    where "fu = (\<lambda>u. if user_id u = sid
                      then u\<lparr>balance := Some (to_number (balance seller) + p)\<rparr> else u)"
  from s own have s': "get_user st (owner_id acc) = Some seller" by simp
  from r pr have r': "int4_ok (to_number (balance seller) + price acc)" by simp
  have run: "transfer_complete st oid =
    (Inr (),
     st\<lparr>orders := map fo (orders st), accounts := map fa (accounts st),
        timers := timers st @ [\<lparr>delay_ms = 5000, timer_task = CleanupCompletedOrder (account_id ord)\<rparr>],
        users := map fu (users st)\<rparr>)"
    unfolding fo_def fa_def fu_def own [symmetric] pr [symmetric]
    using transfer_complete_run [OF o b a s' r'] by (simp only: set_status_def)
  show "fst (transfer_complete st oid) = Inr ()"
    by (simp add: run)
  have ords: "orders (snd (transfer_complete st oid)) = map fo (orders st)"
    and accs: "accounts (snd (transfer_complete st oid)) = map fa (accounts st)"
    and usrs: "users (snd (transfer_complete st oid)) = map fu (users st)"
    by (simp_all add: run)
  have "first_row (filter (\<lambda>u. user_id u = sid)
       (map (\<lambda>r. if user_id r = sid
                 then r\<lparr>balance := Some (to_number (balance seller) + p)\<rparr> else r)
          (users st)))
     = Some (seller\<lparr>balance := Some (to_number (balance seller) + p)\<rparr>)"
    by (rule first_user_after_balance_update) (use s in \<open>simp only: get_user_def\<close>)
  then show "get_user (snd (transfer_complete st oid)) sid =
           Some (seller\<lparr>balance := Some (to_number (balance seller) + p)\<rparr>)"
    by (simp only: get_user_def usrs fu_def)
  show "sale_of (snd (transfer_complete st oid)) oid' = sale_of st oid'"
  proof (rule sale_of_preserved [OF ords _ accs _ usrs])
    show "\<And>r. ord_id (fo r) = ord_id r \<and> buyer_id (fo r) = buyer_id r \<and> account_id (fo r) = account_id r"
      by (simp add: fo_def)
    show "\<And>r. acc_id (fa r) = acc_id r \<and> owner_id (fa r) = owner_id r \<and> price (fa r) = price r"
      by (simp add: fa_def)
    show "\<And>r. user_id (fu r) = user_id r"
      by (simp add: fu_def)
  qed
qed

lemma credited_price_nonneg_sum:
  "\<forall>oid \<in> set oids. \<exists>p. sale_of st oid = Some (sid, p) \<and> 0 \<le> p \<Longrightarrow>
     0 \<le> sum_list (map (credited_price st) oids)"
  by (induction oids) (auto simp: credited_price_def)

lemma int4_ok_between: "int4_ok lo \<Longrightarrow> int4_ok hi \<Longrightarrow> lo \<le> x \<Longrightarrow> x \<le> hi \<Longrightarrow> int4_ok x"
  by (simp add: int4_ok_def)

lemma complete_all_balance:
  assumes "\<forall>oid \<in> set oids. \<exists>p. sale_of st oid = Some (sid, p) \<and> 0 \<le> p"
    and "get_user st sid = Some seller"
    and "int4_ok (to_number (balance seller))"
    and "int4_ok (to_number (balance seller) + sum_list (map (credited_price st) oids))"
  shows "map_option to_number (balance_of (complete_all st oids) sid) =
           Some (to_number (balance seller) + sum_list (map (credited_price st) oids))"
  using assms
proof (induction oids arbitrary: st seller)
  case Nil
  from Nil.prems(2) show ?case
    by (simp add: balance_of_def)
next
  case (Cons oid oids)
  let ?b = "to_number (balance seller)"
  from Cons.prems(1) obtain p where sale: "sale_of st oid = Some (sid, p)" and p: "0 \<le> p"
    by auto
  have cp: "credited_price st oid = p"
    by (simp add: credited_price_def sale)
  have all_rest: "\<forall>x \<in> set oids. \<exists>q. sale_of st x = Some (sid, q) \<and> 0 \<le> q"
    using Cons.prems(1) by simp
  have rest: "0 \<le> sum_list (map (credited_price st) oids)"
    by (rule credited_price_nonneg_sum [OF all_rest])
  have total: "sum_list (map (credited_price st) (oid # oids)) =
      p + sum_list (map (credited_price st) oids)"
    by (simp add: cp)
  have hi: "int4_ok (?b + (p + sum_list (map (credited_price st) oids)))"
    using Cons.prems(4) by (simp only: total)
  have ok: "int4_ok (?b + p)"
    using Cons.prems(3) hi p rest by (simp add: int4_ok_def)
  let ?st' = "snd (transfer_complete st oid)"
  let ?seller' = "seller\<lparr>balance := Some (?b + p)\<rparr>"
  note step = transfer_complete_credit [OF sale Cons.prems(2) ok]
  have same: "credited_price ?st' x = credited_price st x" for x
    by (simp only: credited_price_def step(3))
  have same_fun: "credited_price ?st' = credited_price st"
    by (rule ext) (rule same)
  have sum': "sum_list (map (credited_price ?st') oids) = sum_list (map (credited_price st) oids)"
    by (simp only: same_fun)
  have b': "to_number (balance ?seller') = ?b + p"
    by (simp add: to_number_def)
  have all': "\<forall>x \<in> set oids. \<exists>q. sale_of ?st' x = Some (sid, q) \<and> 0 \<le> q"
    using all_rest by (simp only: step(3))
  have ok': "int4_ok (to_number (balance ?seller'))"
    using ok by (simp only: b')
  have hi': "int4_ok (to_number (balance ?seller') + sum_list (map (credited_price ?st') oids))"
    using hi by (simp only: b' sum' add.assoc)
  have "map_option to_number (balance_of (complete_all ?st' oids) sid) =
           Some (to_number (balance ?seller') + sum_list (map (credited_price ?st') oids))"
    by (rule Cons.IH [OF all' step(2) ok' hi'])
  then have "map_option to_number (balance_of (complete_all ?st' oids) sid) =
           Some (?b + (p + sum_list (map (credited_price st) oids)))"
    by (simp only: b' sum' add.assoc)
  then show ?case
    by (simp only: complete_all.simps total)
qed

lemma first_row_filter_holds: "first_row (filter P xs) = Some x \<Longrightarrow> P x"
  by (induction xs) (auto simp: first_row_def split: if_splits)

lemma transfer_complete_effect:
  assumes o: "first_row (filter (\<lambda>r. ord_id r = oid) (orders st)) = Some ord"
    and b: "get_user st (buyer_id ord) = Some buyer"
    and a: "first_row (account_by_id st (account_id ord)) = Some acc"
    and s: "get_user st (owner_id acc) = Some seller"
    and r: "int4_ok (to_number (balance seller) + price acc)"
  shows "fst (transfer_complete st oid) = Inr ()"
    and "first_row (filter (\<lambda>r. ord_id r = oid) (orders (snd (transfer_complete st oid)))) =
           Some (ord\<lparr>ord_status := ''completed''\<rparr>)"
    and "status_of (snd (transfer_complete st oid)) (account_id ord) = Some Sold"
    and "balance_of (snd (transfer_complete st oid)) (owner_id acc) =
           Some (Some (to_number (balance seller) + price acc))"
proof -
  note run = transfer_complete_run [OF o b a s r]
  have sale: "sale_of st oid = Some (owner_id acc, price acc)"
    by (simp add: sale_of_def o b a)
  note credit = transfer_complete_credit [OF sale s r]
  show "fst (transfer_complete st oid) = Inr ()"
    by (rule credit(1))
  define upd :: "order_row \<Rightarrow> order_row"
    where "upd = (\<lambda>r. if ord_id r = oid then r\<lparr>ord_status := ''completed''\<rparr> else r)"
  have ords: "orders (snd (transfer_complete st oid)) = map upd (orders st)"
    by (simp add: run upd_def)
  have accs: "accounts (snd (transfer_complete st oid)) = set_status Sold (account_id ord) (accounts st)"
    by (simp add: run)
  have oid: "ord_id ord = oid"
    using first_row_filter_holds [OF o] .
  have "filter (\<lambda>r. ord_id r = oid) (map upd (orders st)) =
          map upd (filter (\<lambda>r. ord_id r = oid) (orders st))"
    by (rule filter_map_preserved) (simp add: upd_def)
  then have "first_row (filter (\<lambda>r. ord_id r = oid) (orders (snd (transfer_complete st oid)))) =
      Some (upd ord)"
    by (simp only: ords first_row_map o option.map)
  then show "first_row (filter (\<lambda>r. ord_id r = oid) (orders (snd (transfer_complete st oid)))) =
           Some (ord\<lparr>ord_status := ''completed''\<rparr>)"
    by (simp add: upd_def oid)
  have "status_of st (account_id ord) = Some (acc_status acc)"
    by (simp add: status_of_def a)
  with status_of_set_status [OF accs, of "account_id ord"]
  show "status_of (snd (transfer_complete st oid)) (account_id ord) = Some Sold"
    by simp
  from credit(2)
  show "balance_of (snd (transfer_complete st oid)) (owner_id acc) =
           Some (Some (to_number (balance seller) + price acc))"
    by (simp add: balance_of_def)
qed

text \<open>
  Claim C4, amended. A run of the bot's completion for a pending order whose buyer,
  account and seller exist, served without other requests in between, succeeds, leaves
  the order completed, the account sold and the seller's balance higher by exactly the
  account's price. For every list of such runs for orders of one seller, served one
  after the other, the seller's final balance is the initial balance plus the sum of
  the credited prices.
\<close>

theorem transfer_complete_sequential:
  "(first_row (filter (\<lambda>r. ord_id r = oid) (orders st)) = Some ord \<and> ord_status ord = ''pending'' \<and>
    get_user st (buyer_id ord) = Some buyer \<and>
    first_row (account_by_id st (account_id ord)) = Some acc \<and>
    get_user st (owner_id acc) = Some seller \<and>
    int4_ok (to_number (balance seller) + price acc) \<longrightarrow>
      fst (transfer_complete st oid) = Inr () \<and>
      first_row (filter (\<lambda>r. ord_id r = oid) (orders (snd (transfer_complete st oid)))) =
        Some (ord\<lparr>ord_status := ''completed''\<rparr>) \<and>
      status_of (snd (transfer_complete st oid)) (account_id ord) = Some Sold \<and>
      balance_of (snd (transfer_complete st oid)) (owner_id acc) =
        Some (Some (to_number (balance seller) + price acc))) \<and>
   ((\<forall>x \<in> set oids. \<exists>p. sale_of st x = Some (sid, p) \<and> 0 \<le> p) \<and>
    get_user st sid = Some s \<and> int4_ok (to_number (balance s)) \<and>
    int4_ok (to_number (balance s) + sum_list (map (credited_price st) oids)) \<longrightarrow>
      map_option to_number (balance_of (complete_all st oids) sid) =
        Some (to_number (balance s) + sum_list (map (credited_price st) oids)))"
proof -
  have p1: "first_row (filter (\<lambda>r. ord_id r = oid) (orders st)) = Some ord \<and> ord_status ord = ''pending'' \<and>
    get_user st (buyer_id ord) = Some buyer \<and>
    first_row (account_by_id st (account_id ord)) = Some acc \<and>
    get_user st (owner_id acc) = Some seller \<and>
    int4_ok (to_number (balance seller) + price acc) \<longrightarrow>
      fst (transfer_complete st oid) = Inr () \<and>
      first_row (filter (\<lambda>r. ord_id r = oid) (orders (snd (transfer_complete st oid)))) =
        Some (ord\<lparr>ord_status := ''completed''\<rparr>) \<and>
      status_of (snd (transfer_complete st oid)) (account_id ord) = Some Sold \<and>
      balance_of (snd (transfer_complete st oid)) (owner_id acc) =
        Some (Some (to_number (balance seller) + price acc))"
    using transfer_complete_effect [of oid st ord buyer acc seller] by blast
  have p2: "(\<forall>x \<in> set oids. \<exists>p. sale_of st x = Some (sid, p) \<and> 0 \<le> p) \<and>
    get_user st sid = Some s \<and> int4_ok (to_number (balance s)) \<and>
    int4_ok (to_number (balance s) + sum_list (map (credited_price st) oids)) \<longrightarrow>
      map_option to_number (balance_of (complete_all st oids) sid) =
        Some (to_number (balance s) + sum_list (map (credited_price st) oids))"
    using complete_all_balance [of oids st sid s] by blast
  from p1 p2 show ?thesis by (rule conjI)
qed

theorem transfer_complete_sequential_witness:
  "fst (transfer_complete demo_two_orders 20) = Inr () \<and>
   first_row (filter (\<lambda>r. ord_id r = 20) (orders (snd (transfer_complete demo_two_orders 20)))) =
     Some \<lparr>ord_id = 20, buyer_id = 2, account_id = 10, amount = 500,
            ord_status = ''completed'', receipt_no = Some (js ''FT1'')\<rparr> \<and>
   status_of (snd (transfer_complete demo_two_orders 20)) 10 = Some Sold \<and>
   balance_of (snd (transfer_complete demo_two_orders 20)) 1 = Some (Some 500) \<and>
   map_option to_number (balance_of (complete_all demo_two_orders [20, 21]) 1) = Some 800"
proof -
  let ?ord = "\<lparr>ord_id = 20, buyer_id = 2, account_id = 10, amount = 500,
            ord_status = ''pending'', receipt_no = Some (js ''FT1'')\<rparr>"
  let ?acc = "demo_account\<lparr>acc_status := Pending\<rparr>"
  have pre: "first_row (filter (\<lambda>r. ord_id r = 20) (orders demo_two_orders)) = Some ?ord \<and>
    ord_status ?ord = ''pending'' \<and>
    get_user demo_two_orders (buyer_id ?ord) = Some demo_buyer_a \<and>
    first_row (account_by_id demo_two_orders (account_id ?ord)) = Some ?acc \<and>
    get_user demo_two_orders (owner_id ?acc) = Some demo_seller \<and>
    int4_ok (to_number (balance demo_seller) + price ?acc)"
    by (simp add: demo_two_orders_eval get_user_def store_defs demo_defs)
  have vals: "account_id ?ord = 10" "owner_id ?acc = 1"
    "to_number (balance demo_seller) + price ?acc = 500"
    "?ord\<lparr>ord_status := ''completed''\<rparr> =
       \<lparr>ord_id = 20, buyer_id = 2, account_id = 10, amount = 500,
        ord_status = ''completed'', receipt_no = Some (js ''FT1'')\<rparr>"
    by (simp_all add: store_defs demo_defs)
  from transfer_complete_sequential [where st = demo_two_orders and oid = 20 and ord = ?ord
      and buyer = demo_buyer_a and acc = ?acc and seller = demo_seller] pre
  have one: "fst (transfer_complete demo_two_orders 20) = Inr () \<and>
      first_row (filter (\<lambda>r. ord_id r = 20) (orders (snd (transfer_complete demo_two_orders 20)))) =
        Some (?ord\<lparr>ord_status := ''completed''\<rparr>) \<and>
      status_of (snd (transfer_complete demo_two_orders 20)) (account_id ?ord) = Some Sold \<and>
      balance_of (snd (transfer_complete demo_two_orders 20)) (owner_id ?acc) =
        Some (Some (to_number (balance demo_seller) + price ?acc))"
    by blast
  have sales: "sale_of demo_two_orders 20 = Some (1, 500)" "sale_of demo_two_orders 21 = Some (1, 300)"
    by (simp_all add: sale_of_def demo_two_orders_eval get_user_def store_defs demo_defs)
  have seq_pre: "(\<forall>x \<in> set [20, 21]. \<exists>p. sale_of demo_two_orders x = Some (1, p) \<and> 0 \<le> p) \<and>
    get_user demo_two_orders 1 = Some demo_seller \<and> int4_ok (to_number (balance demo_seller)) \<and>
    int4_ok (to_number (balance demo_seller) + sum_list (map (credited_price demo_two_orders) [20, 21]))"
    by (simp add: sales credited_price_def)
       (simp add: demo_two_orders_eval get_user_def store_defs demo_defs)
  from transfer_complete_sequential [where st = demo_two_orders and oids = "[20, 21]" and sid = 1
      and s = demo_seller] seq_pre
  have "map_option to_number (balance_of (complete_all demo_two_orders [20, 21]) 1) =
        Some (to_number (balance demo_seller) + sum_list (map (credited_price demo_two_orders) [20, 21]))"
    by blast
  then have seq: "map_option to_number (balance_of (complete_all demo_two_orders [20, 21]) 1) = Some 800"
    by (simp add: sales credited_price_def to_number_def demo_seller_def)
  from one seq show ?thesis
    by (simp only: vals)
qed

end
